theory Spec2Isabelle
  imports Complex_Main "HOL-Library.Monad_Syntax"
begin

section \<open>The three-body simulator: data model\<close>

text \<open>
  The embedding follows \<^verbatim>\<open>src/simulation.ts\<close>. In this first embedding a TypeScript
  \<^verbatim>\<open>number\<close> is a \<^typ>\<open>real\<close>: all arithmetic is exact, and rounding, overflow,
  NaN and the infinities of IEEE doubles have no counterpart. A second embedding of the
  numerical core, in double-precision arithmetic, follows it and serves the properties
  that rounding and overflow decide. Objects are modelled as values; every
  place of the source that creates a body gives it \<^verbatim>\<open>Vec2\<close> objects of its own, so no
  two bodies share a position or velocity object and value semantics loses nothing.
\<close>

subsection \<open>Vector math\<close>

record Vec2 =
  x :: real
  y :: real

definition add :: "Vec2 \<Rightarrow> Vec2 \<Rightarrow> Vec2" where
  "add this v = \<lparr>x = x this + x v, y = y this + y v\<rparr>"

definition sub :: "Vec2 \<Rightarrow> Vec2 \<Rightarrow> Vec2" where
  "sub this v = \<lparr>x = x this - x v, y = y this - y v\<rparr>"

definition mag :: "Vec2 \<Rightarrow> real" where
  "mag this = sqrt (x this * x this + y this * y this)"

subsection \<open>Physics types\<close>

definition G :: real where
  "G = 1"

definition SOFTENING :: real where
  "SOFTENING = 0.1"

record Body =
  id' :: real
  mass :: real
  pos :: Vec2
  vel :: Vec2
  color :: string
  trail :: "Vec2 list"

type_synonym StateVector = "real list"

text \<open>
  The fields of class \<^verbatim>\<open>Simulation\<close> other than the canvas and its drawing context,
  which belong to the browser.
\<close>

record Simulation =
  bodies :: "Body list"
  dt :: real
  scale :: real
  offsetX :: real
  offsetY :: real
  paused :: bool
  isDragging :: bool
  dragStart :: "Vec2 option"
  dragCurrent :: "Vec2 option"

section \<open>The derivative evaluator\<close>

text \<open>
  The body of the inner loop of \<^verbatim>\<open>getDerivatives\<close> (lines 181 to 193), for one \<open>j\<close>,
  acting on the pair of accumulators \<open>(ax, ay)\<close>. \<^verbatim>\<open>Math.pow(b, 1.5)\<close> is
  \<open>b powr 1.5\<close>, which agrees with it for every positive base.
\<close>

definition inner_body :: "Simulation \<Rightarrow> StateVector \<Rightarrow> nat \<Rightarrow> nat \<Rightarrow> real \<times> real \<Rightarrow> real \<times> real" where
  "inner_body this state i j acc =
     (case acc of (ax, ay) \<Rightarrow>
        if i = j then (ax, ay)
        else
          let iIdx = i * 4;
              jIdx = j * 4;
              dx = state ! jIdx - state ! iIdx;
              dy = state ! (jIdx + 1) - state ! (iIdx + 1);
              distSq = dx * dx + dy * dy;
              dist = sqrt distSq;
              f = (G * mass (bodies this ! j)) / ((distSq + SOFTENING) powr 1.5)
          in (ax + f * dx, ay + f * dy))"

text \<open>
  The body of the outer loop (lines 174 to 196), for one \<open>i\<close>, acting on the typed array
  \<^verbatim>\<open>derivs\<close>. A store into a \<^verbatim>\<open>Float64Array\<close> beyond its length is ignored, as
  list update is.
\<close>

definition outer_body :: "Simulation \<Rightarrow> StateVector \<Rightarrow> nat \<Rightarrow> real list \<Rightarrow> real list" where
  "outer_body this state i derivs =
     (let numBodies = length (bodies this);
          iIdx = i * 4;
          derivs1 = derivs[iIdx := state ! (iIdx + 2)];
          derivs2 = derivs1[iIdx + 1 := state ! (iIdx + 3)]
      in case fold (inner_body this state i) [0..<numBodies] (0, 0) of
           (ax, ay) \<Rightarrow> (derivs2[iIdx + 2 := ax])[iIdx + 3 := ay])"

text \<open>
  \<^verbatim>\<open>getDerivatives\<close> reads \<^verbatim>\<open>state\<close> at the indices below \<open>4 * numBodies\<close> and
  nowhere else. When the vector is shorter than that, the source reads \<^verbatim>\<open>undefined\<close>
  and computes with NaN, which no real number stands for: the model answers \<open>None\<close>
  exactly in that case, and otherwise runs the two loops over a zero-filled array of the
  length of \<^verbatim>\<open>state\<close>.
\<close>

definition getDerivatives :: "Simulation \<Rightarrow> StateVector \<Rightarrow> StateVector option" where
  "getDerivatives this state =
     (let numBodies = length (bodies this)
      in if 4 * numBodies \<le> length state
         then Some (fold (outer_body this state) [0..<numBodies] (replicate (length state) 0))
         else None)"

section \<open>The stepper\<close>

text \<open>
  Flattening (lines 203 and 204): each body pushes its four components onto the vector.
\<close>

definition flatten :: "Body list \<Rightarrow> StateVector" where
  "flatten bs = fold (\<lambda>b state. state @ [x (pos b), y (pos b), x (vel b), y (vel b)]) bs []"

text \<open>
  The write-back of one body (lines 219 to 223) and its trail bookkeeping (lines 225 to
  231). The disjunction of the source is short-circuit: the last trail point is read only
  when there is one.
\<close>

definition writeBack :: "StateVector \<Rightarrow> nat \<Rightarrow> Body \<Rightarrow> Body" where
  "writeBack state i b =
     (let iIdx = i * 4
      in b\<lparr>pos := \<lparr>x = state ! iIdx, y = state ! (iIdx + 1)\<rparr>,
            vel := \<lparr>x = state ! (iIdx + 2), y = state ! (iIdx + 3)\<rparr>\<rparr>)"

definition recordTrail :: "bool \<Rightarrow> Body \<Rightarrow> Body" where
  "recordTrail is_paused b =
     (if \<not> is_paused then
        (if (if length (trail b) = 0 then True
             else mag (sub (pos b) (last (trail b))) > 0.05)
         then
           let pushed = trail b @ [\<lparr>x = x (pos b), y = y (pos b)\<rparr>]
           in b\<lparr>trail := (if length pushed > 150 then tl pushed else pushed)\<rparr>
         else b)
      else b)"

text \<open>
  Unflattening is the write-back of every body, in order, from its own four components.
\<close>

definition unflatten :: "StateVector \<Rightarrow> Body list \<Rightarrow> Body list" where
  "unflatten state bs = map (\<lambda>(i, b). writeBack state i b) (enumerate 0 bs)"

text \<open>
  The final in-place combination loop of the stepper (lines 214 to 216).
\<close>

definition combine :: "real \<Rightarrow> StateVector \<Rightarrow> StateVector \<Rightarrow> StateVector \<Rightarrow> StateVector \<Rightarrow> StateVector \<Rightarrow> StateVector" where
  "combine dt' k1 k2 k3 k4 state =
     fold (\<lambda>i st. st[i := st ! i + (dt' / 6.0) * (k1 ! i + 2 * k2 ! i + 2 * k3 ! i + k4 ! i)])
       [0..<length state] state"

text \<open>
  \<^verbatim>\<open>integrate\<close>, with the step size named \<open>dt'\<close> to keep it apart from the field
  \<open>dt\<close>. The result is \<open>None\<close> only if a derivative evaluation is; the source has no
  failing path of its own. The last \<^verbatim>\<open>forEach\<close> writes each body back and then does
  its trail bookkeeping.
\<close>

definition integrate :: "Simulation \<Rightarrow> real \<Rightarrow> Simulation option" where
  "integrate this dt' =
     (if length (bodies this) = 0 then Some this
      else
        let state = flatten (bodies this)
        in do {
          k1 \<leftarrow> getDerivatives this state;
          let stateK2 = map (\<lambda>(i, v). v + k1 ! i * dt' * 0.5) (enumerate 0 state);
          k2 \<leftarrow> getDerivatives this stateK2;
          let stateK3 = map (\<lambda>(i, v). v + k2 ! i * dt' * 0.5) (enumerate 0 state);
          k3 \<leftarrow> getDerivatives this stateK3;
          let stateK4 = map (\<lambda>(i, v). v + k3 ! i * dt') (enumerate 0 state);
          k4 \<leftarrow> getDerivatives this stateK4;
          let state' = combine dt' k1 k2 k3 k4 state;
          Some (this\<lparr>bodies :=
            map (\<lambda>(i, b). recordTrail (paused this) (writeBack state' i b))
              (enumerate 0 (bodies this))\<rparr>)
        })"

text \<open>
  Repeated stepping with one step size, as the driving loop does (line 300).
\<close>

fun steps :: "nat \<Rightarrow> real \<Rightarrow> Simulation \<Rightarrow> Simulation option" where
  "steps 0 dt' this = Some this"
| "steps (Suc n) dt' this =
     (case integrate this dt' of None \<Rightarrow> None | Some next \<Rightarrow> steps n dt' next)"

section \<open>The formulas of the specification\<close>

text \<open>
  The derivative of one component, written after the specification's description of the
  evaluator rather than after the code: for body \<open>i\<close> and every other body \<open>j\<close>,
  \<open>dx\<close> and \<open>dy\<close> are the position differences, \<open>distSq\<close> is \<open>dx\<^sup>2 + dy\<^sup>2\<close>, and
  the factor is \<open>f = G \<cdot> mass\<^sub>j / (distSq + SOFTENING)\<^bsup>1.5\<^esup>\<close>; the acceleration of
  body \<open>i\<close> sums \<open>f \<cdot> dx\<close> and \<open>f \<cdot> dy\<close> over all \<open>j \<noteq> i\<close>.
\<close>

definition spec_dx :: "StateVector \<Rightarrow> nat \<Rightarrow> nat \<Rightarrow> real" where
  "spec_dx state i j = state ! (4 * j) - state ! (4 * i)"

definition spec_dy :: "StateVector \<Rightarrow> nat \<Rightarrow> nat \<Rightarrow> real" where
  "spec_dy state i j = state ! (4 * j + 1) - state ! (4 * i + 1)"

definition spec_distSq :: "StateVector \<Rightarrow> nat \<Rightarrow> nat \<Rightarrow> real" where
  "spec_distSq state i j = (spec_dx state i j)\<^sup>2 + (spec_dy state i j)\<^sup>2"

definition spec_f :: "Simulation \<Rightarrow> StateVector \<Rightarrow> nat \<Rightarrow> nat \<Rightarrow> real" where
  "spec_f this state i j =
     G * mass (bodies this ! j) / (spec_distSq state i j + SOFTENING) powr 1.5"

definition spec_ax :: "Simulation \<Rightarrow> StateVector \<Rightarrow> nat \<Rightarrow> real" where
  "spec_ax this state i =
     (\<Sum>j \<in> {..<length (bodies this)} - {i}. spec_f this state i j * spec_dx state i j)"

definition spec_ay :: "Simulation \<Rightarrow> StateVector \<Rightarrow> nat \<Rightarrow> real" where
  "spec_ay this state i =
     (\<Sum>j \<in> {..<length (bodies this)} - {i}. spec_f this state i j * spec_dy state i j)"

text \<open>
  The derivative vector has the layout of the state: component \<open>k\<close> belongs to body
  \<open>k div 4\<close>, and \<open>k mod 4\<close> selects among the two velocities and the two accelerations.
\<close>

definition spec_deriv :: "Simulation \<Rightarrow> StateVector \<Rightarrow> nat \<Rightarrow> real" where
  "spec_deriv this state k =
     (let i = k div 4; r = k mod 4
      in if r = 0 then state ! (4 * i + 2)
         else if r = 1 then state ! (4 * i + 3)
         else if r = 2 then spec_ax this state i
         else spec_ay this state i)"

text \<open>
  Vectors are added and scaled componentwise.
\<close>

definition vplus :: "real list \<Rightarrow> real list \<Rightarrow> real list" where
  "vplus u v = map2 (+) u v"

definition vscale :: "real \<Rightarrow> real list \<Rightarrow> real list" where
  "vscale c v = map ((*) c) v"

text \<open>
  The classical fixed-step RK4 advance of a flattened state \<open>s0\<close>, stage by stage as the
  specification lists it, over the specification's derivative.
\<close>

definition spec_derivatives :: "Simulation \<Rightarrow> StateVector \<Rightarrow> StateVector" where
  "spec_derivatives this state = map (spec_deriv this state) [0..<length state]"

definition spec_k1 :: "Simulation \<Rightarrow> StateVector \<Rightarrow> StateVector" where
  "spec_k1 this s0 = spec_derivatives this s0"

definition spec_k2 :: "Simulation \<Rightarrow> real \<Rightarrow> StateVector \<Rightarrow> StateVector" where
  "spec_k2 this dt' s0 = spec_derivatives this (vplus s0 (vscale (dt' / 2) (spec_k1 this s0)))"

definition spec_k3 :: "Simulation \<Rightarrow> real \<Rightarrow> StateVector \<Rightarrow> StateVector" where
  "spec_k3 this dt' s0 = spec_derivatives this (vplus s0 (vscale (dt' / 2) (spec_k2 this dt' s0)))"

definition spec_k4 :: "Simulation \<Rightarrow> real \<Rightarrow> StateVector \<Rightarrow> StateVector" where
  "spec_k4 this dt' s0 = spec_derivatives this (vplus s0 (vscale dt' (spec_k3 this dt' s0)))"

definition spec_rk4 :: "Simulation \<Rightarrow> real \<Rightarrow> StateVector \<Rightarrow> StateVector" where
  "spec_rk4 this dt' s0 =
     vplus s0 (vscale (dt' / 6)
       (vplus (vplus (vplus (spec_k1 this s0) (vscale 2 (spec_k2 this dt' s0)))
                (vscale 2 (spec_k3 this dt' s0)))
          (spec_k4 this dt' s0)))"

text \<open>
  The physical part of a body, which is all the integrator may depend on, and the total
  linear momentum of a body list.
\<close>

definition phys :: "Body \<Rightarrow> real \<times> Vec2 \<times> Vec2" where
  "phys b = (mass b, pos b, vel b)"

definition momentum_x :: "Body list \<Rightarrow> real" where
  "momentum_x bs = (\<Sum>b\<leftarrow>bs. mass b * x (vel b))"

definition momentum_y :: "Body list \<Rightarrow> real" where
  "momentum_y bs = (\<Sum>b\<leftarrow>bs. mass b * y (vel b))"

section \<open>The same code in double-precision arithmetic\<close>

text \<open>
  A second embedding of the numerical core, for the properties that rounding and
  overflow decide. A \<^verbatim>\<open>number\<close> is a \<open>double\<close>: a finite value, one of the two
  infinities, or NaN. The sign of zero is not modelled; it is observable only through a
  division by zero, and the code divides by \<open>6.0\<close> and by a power of a positive number.
\<close>

datatype double = Fin real | PInf | NInf | NaN

text \<open>
  Rounding to the nearest double, ties to even: a significand of 53 bits, the quantum
  \<open>2\<^bsup>e - 52\<^esup>\<close> for a value of binary exponent \<open>e\<close>, never below \<open>2\<^bsup>-1074\<^esup>\<close> (gradual
  underflow), and overflow to an infinity when the rounded magnitude reaches \<open>2\<^bsup>1024\<^esup>\<close>.
\<close>

definition pow2 :: "int \<Rightarrow> real" where
  "pow2 e = (if 0 \<le> e then 2 ^ nat e else 1 / 2 ^ nat (- e))"

definition half_even :: "real \<Rightarrow> int" where
  "half_even a =
     (let n = \<lfloor>a\<rfloor>; d = a - of_int n
      in if d < 1 / 2 then n
         else if 1 / 2 < d then n + 1
         else if even n then n else n + 1)"

definition expo :: "real \<Rightarrow> int" where
  "expo a = max \<lfloor>log 2 \<bar>a\<bar>\<rfloor> (- 1022)"


definition rnd :: "real \<Rightarrow> double" where
  "rnd a =
     (if a = 0 then Fin 0
      else
        let q = pow2 (expo a - 52);
            r = of_int (half_even (a / q)) * q
        in if pow2 1024 \<le> \<bar>r\<bar> then (if 0 < a then PInf else NInf) else Fin r)"

text \<open>
  The arithmetic operators of the language: the exact result, rounded, with the IEEE
  rules for infinities and NaN.
\<close>

fun fneg :: "double \<Rightarrow> double" where
  "fneg (Fin a) = Fin (- a)"
| "fneg PInf = NInf"
| "fneg NInf = PInf"
| "fneg NaN = NaN"

fun fadd :: "double \<Rightarrow> double \<Rightarrow> double" where
  "fadd (Fin a) (Fin b) = rnd (a + b)"
| "fadd NaN b = NaN"
| "fadd a NaN = NaN"
| "fadd PInf NInf = NaN"
| "fadd NInf PInf = NaN"
| "fadd PInf b = PInf"
| "fadd NInf b = NInf"
| "fadd a PInf = PInf"
| "fadd a NInf = NInf"

definition fsub :: "double \<Rightarrow> double \<Rightarrow> double" where
  "fsub a b = fadd a (fneg b)"

fun fmul :: "double \<Rightarrow> double \<Rightarrow> double" where
  "fmul (Fin a) (Fin b) = rnd (a * b)"
| "fmul NaN b = NaN"
| "fmul a NaN = NaN"
| "fmul (Fin a) PInf = (if a = 0 then NaN else if 0 < a then PInf else NInf)"
| "fmul (Fin a) NInf = (if a = 0 then NaN else if 0 < a then NInf else PInf)"
| "fmul PInf (Fin b) = (if b = 0 then NaN else if 0 < b then PInf else NInf)"
| "fmul NInf (Fin b) = (if b = 0 then NaN else if 0 < b then NInf else PInf)"
| "fmul PInf PInf = PInf"
| "fmul PInf NInf = NInf"
| "fmul NInf PInf = NInf"
| "fmul NInf NInf = PInf"

fun fdiv :: "double \<Rightarrow> double \<Rightarrow> double" where
  "fdiv (Fin a) (Fin b) =
     (if b = 0 then (if a = 0 then NaN else if 0 < a then PInf else NInf) else rnd (a / b))"
| "fdiv NaN b = NaN"
| "fdiv a NaN = NaN"
| "fdiv (Fin a) PInf = Fin 0"
| "fdiv (Fin a) NInf = Fin 0"
| "fdiv PInf (Fin b) = (if 0 \<le> b then PInf else NInf)"
| "fdiv NInf (Fin b) = (if 0 \<le> b then NInf else PInf)"
| "fdiv PInf b = NaN"
| "fdiv NInf b = NaN"

text \<open>
  \<^verbatim>\<open>Math.sqrt\<close> is correctly rounded. \<^verbatim>\<open>Math.pow\<close> is only required to approximate
  the power; \<^verbatim>\<open>Math.pow(b, 1.5)\<close> is taken here as the correctly rounded power, and
  the results below use no more of it than that its value at the softening constant lies
  between \<open>2\<^bsup>-6\<^esup>\<close> and \<open>2\<^bsup>-3\<^esup>\<close>.
\<close>

fun Math_sqrt :: "double \<Rightarrow> double" where
  "Math_sqrt (Fin a) = (if a < 0 then NaN else rnd (sqrt a))"
| "Math_sqrt PInf = PInf"
| "Math_sqrt NInf = NaN"
| "Math_sqrt NaN = NaN"

fun Math_pow_1_5 :: "double \<Rightarrow> double" where
  "Math_pow_1_5 (Fin a) = (if a < 0 then NaN else rnd (a powr 1.5))"
| "Math_pow_1_5 PInf = PInf"
| "Math_pow_1_5 NInf = PInf"
| "Math_pow_1_5 NaN = NaN"

text \<open>
  The constants as doubles, and a read of an array element: beyond the length the read
  gives \<^verbatim>\<open>undefined\<close>, which is NaN in arithmetic and in a \<^verbatim>\<open>Float64Array\<close>.
\<close>

definition G_d :: double where
  "G_d = Fin 1"

definition SOFTENING_d :: double where
  "SOFTENING_d = rnd 0.1"

definition rd :: "double list \<Rightarrow> nat \<Rightarrow> double" where
  "rd a k = (if k < length a then a ! k else NaN)"

text \<open>
  \<^verbatim>\<open>getDerivatives\<close> (lines 169 to 198) once more, operation by operation. The
  bodies enter it only through their number and their masses, so it takes the list of
  masses.
\<close>

definition inner_body_d :: "double list \<Rightarrow> double list \<Rightarrow> nat \<Rightarrow> nat \<Rightarrow> double \<times> double \<Rightarrow> double \<times> double" where
  "inner_body_d masses state i j acc =
     (case acc of (ax, ay) \<Rightarrow>
        if i = j then (ax, ay)
        else
          let iIdx = i * 4;
              jIdx = j * 4;
              dx = fsub (rd state jIdx) (rd state iIdx);
              dy = fsub (rd state (jIdx + 1)) (rd state (iIdx + 1));
              distSq = fadd (fmul dx dx) (fmul dy dy);
              dist = Math_sqrt distSq;
              f = fdiv (fmul G_d (masses ! j)) (Math_pow_1_5 (fadd distSq SOFTENING_d))
          in (fadd ax (fmul f dx), fadd ay (fmul f dy)))"

definition outer_body_d :: "double list \<Rightarrow> double list \<Rightarrow> nat \<Rightarrow> double list \<Rightarrow> double list" where
  "outer_body_d masses state i derivs =
     (let numBodies = length masses;
          iIdx = i * 4;
          derivs1 = derivs[iIdx := rd state (iIdx + 2)];
          derivs2 = derivs1[iIdx + 1 := rd state (iIdx + 3)]
      in case fold (inner_body_d masses state i) [0..<numBodies] (Fin 0, Fin 0) of
           (ax, ay) \<Rightarrow> (derivs2[iIdx + 2 := ax])[iIdx + 3 := ay])"

definition getDerivatives_d :: "double list \<Rightarrow> double list \<Rightarrow> double list" where
  "getDerivatives_d masses state =
     fold (outer_body_d masses state) [0..<length masses] (replicate (length state) (Fin 0))"

text \<open>
  Lines 206 to 216 of \<^verbatim>\<open>integrate\<close>: from the flattened state to the vector that is
  written back. Flattening and the write-back copy numbers and do no arithmetic.
\<close>

definition combine_d :: "double \<Rightarrow> double list \<Rightarrow> double list \<Rightarrow> double list \<Rightarrow> double list \<Rightarrow> double list \<Rightarrow> double list" where
  "combine_d dt' k1 k2 k3 k4 state =
     fold (\<lambda>i st. st[i := fadd (rd st i)
                 (fmul (fdiv dt' (Fin 6))
                    (fadd (fadd (fadd (rd k1 i) (fmul (Fin 2) (rd k2 i))) (fmul (Fin 2) (rd k3 i)))
                       (rd k4 i)))])
       [0..<length state] state"

definition advance_d :: "double list \<Rightarrow> double \<Rightarrow> double list \<Rightarrow> double list" where
  "advance_d masses dt' state =
     (let k1 = getDerivatives_d masses state;
          stateK2 = map (\<lambda>(i, v). fadd v (fmul (fmul (rd k1 i) dt') (Fin 0.5))) (enumerate 0 state);
          k2 = getDerivatives_d masses stateK2;
          stateK3 = map (\<lambda>(i, v). fadd v (fmul (fmul (rd k2 i) dt') (Fin 0.5))) (enumerate 0 state);
          k3 = getDerivatives_d masses stateK3;
          stateK4 = map (\<lambda>(i, v). fadd v (fmul (rd k3 i) dt')) (enumerate 0 state);
          k4 = getDerivatives_d masses stateK4
      in combine_d dt' k1 k2 k3 k4 state)"

text \<open>
  The combination \<open>k1 + 2 k2 + 2 k3 + k4\<close> of line 215 when the four stages agree, and
  the factor \<open>f\<close> of line 190 for a pair at the same position, where \<open>distSq\<close> is zero.
\<close>

definition rk_sum :: "double \<Rightarrow> double" where
  "rk_sum v = fadd (fadd (fadd v (fmul (Fin 2) v)) (fmul (Fin 2) v)) v"


text \<open>
  A value that the rounding leaves as it is; a finite value within a bound; a value
  that is not a negative number.
\<close>

fun is_double :: "double \<Rightarrow> bool" where
  "is_double (Fin a) = (rnd a = Fin a)"
| "is_double PInf = True"
| "is_double NInf = True"
| "is_double NaN = True"



section \<open>Concrete simulations\<close>

text \<open>
  A simulation with the field initialisers of the class and a given body list, and the
  body lists that \<^verbatim>\<open>loadScenario\<close> builds for \<^verbatim>\<open>'solar'\<close> and
  \<^verbatim>\<open>'pythagorean'\<close>.
\<close>

definition newSimulation :: "Body list \<Rightarrow> Simulation" where
  "newSimulation bs =
     \<lparr>bodies = bs, dt = 0.015, scale = 150, offsetX = 0, offsetY = 0, paused = False,
      isDragging = False, dragStart = None, dragCurrent = None\<rparr>"

definition solar :: "Body list" where
  "solar =
     [\<lparr>id' = 1, mass = 10, pos = \<lparr>x = 0, y = 0\<rparr>, vel = \<lparr>x = 0, y = 0\<rparr>,
       color = ''#FFDC00'', trail = []\<rparr>,
      \<lparr>id' = 2, mass = 1, pos = \<lparr>x = 3, y = 0\<rparr>, vel = \<lparr>x = 0, y = 1.8\<rparr>,
       color = ''#39CCCC'', trail = []\<rparr>,
      \<lparr>id' = 3, mass = 2, pos = \<lparr>x = 5, y = 0\<rparr>, vel = \<lparr>x = 0, y = 1.4\<rparr>,
       color = ''#F012BE'', trail = []\<rparr>]"

definition pythagorean :: "Body list" where
  "pythagorean =
     [\<lparr>id' = 1, mass = 3, pos = \<lparr>x = 1, y = 3\<rparr>, vel = \<lparr>x = 0, y = 0\<rparr>,
       color = ''#FF851B'', trail = []\<rparr>,
      \<lparr>id' = 2, mass = 4, pos = \<lparr>x = - 2, y = - 1\<rparr>, vel = \<lparr>x = 0, y = 0\<rparr>,
       color = ''#B10DC9'', trail = []\<rparr>,
      \<lparr>id' = 3, mass = 5, pos = \<lparr>x = 1, y = - 1\<rparr>, vel = \<lparr>x = 0, y = 0\<rparr>,
       color = ''#001f3f'', trail = []\<rparr>]"

text \<open>
  Bodies for the one-body and two-body cases: the first planet of the solar scenario, and
  the first two bodies of the figure-eight scenario, which have equal masses, opposite
  positions and, once the second velocity is negated, opposite velocities.
\<close>

definition planet :: Body where
  "planet =
     \<lparr>id' = 2, mass = 1, pos = \<lparr>x = 3, y = 0\<rparr>, vel = \<lparr>x = 0, y = 1.8\<rparr>,
      color = ''#39CCCC'', trail = []\<rparr>"

definition left_body :: Body where
  "left_body =
     \<lparr>id' = 1, mass = 1, pos = \<lparr>x = 0.97000436, y = - 0.24308753\<rparr>,
      vel = \<lparr>x = 0.4662036850, y = 0.4323657300\<rparr>, color = ''#FF4136'', trail = []\<rparr>"

definition right_body :: Body where
  "right_body =
     \<lparr>id' = 2, mass = 1, pos = \<lparr>x = - 0.97000436, y = 0.24308753\<rparr>,
      vel = \<lparr>x = - 0.4662036850, y = - 0.4323657300\<rparr>, color = ''#2ECC40'', trail = []\<rparr>"

section \<open>Flattening and unflattening\<close>

lemma fold_push_append:
  "fold (\<lambda>b state. state @ [x (pos b), y (pos b), x (vel b), y (vel b)]) bs acc =
     acc @ concat (map (\<lambda>b. [x (pos b), y (pos b), x (vel b), y (vel b)]) bs)"
  by (induction bs arbitrary: acc) simp_all

lemma flatten_concat:
  "flatten bs = concat (map (\<lambda>b. [x (pos b), y (pos b), x (vel b), y (vel b)]) bs)"
  by (simp add: flatten_def fold_push_append)

lemma flatten_Cons:
  "flatten (b # bs) = [x (pos b), y (pos b), x (vel b), y (vel b)] @ flatten bs"
  by (simp add: flatten_concat)

lemma length_flatten: "length (flatten bs) = 4 * length bs"
  by (induction bs) (simp_all add: flatten_Cons flatten_concat)

lemma flatten_nth:
  "i < length bs \<Longrightarrow>
     flatten bs ! (i * 4) = x (pos (bs ! i)) \<and>
     flatten bs ! (i * 4 + 1) = y (pos (bs ! i)) \<and>
     flatten bs ! (i * 4 + 2) = x (vel (bs ! i)) \<and>
     flatten bs ! (i * 4 + 3) = y (vel (bs ! i))"
proof (induction bs arbitrary: i)
  case Nil
  then show ?case by simp
next
  case (Cons b bs)
  show ?case
  proof (cases i)
    case 0
    then show ?thesis by (simp add: flatten_Cons)
  next
    case (Suc k)
    with Cons.prems have k: "k < length bs" by simp
    have "\<And>r. flatten (b # bs) ! (Suc k * 4 + r) = flatten bs ! (k * 4 + r)"
      by (simp add: flatten_Cons nth_append)
    from this [of 0] this [of 1] this [of 2] this [of 3] Cons.IH [OF k] Suc
    show ?thesis by simp
  qed
qed

lemma unflatten_nth:
  "i < length bs \<Longrightarrow> unflatten state bs ! i = writeBack state i (bs ! i)"
  by (simp add: unflatten_def nth_enumerate_eq)

lemma length_unflatten: "length (unflatten state bs) = length bs"
  by (simp add: unflatten_def)

lemma writeBack_flatten:
  "i < length bs \<Longrightarrow> writeBack (flatten bs) i b = b\<lparr>pos := pos (bs ! i), vel := vel (bs ! i)\<rparr>"
  using flatten_nth [of i bs] by (simp add: writeBack_def Let_def)

lemma unflatten_flatten_fresh:
  assumes "length bs' = length bs"
  shows "unflatten (flatten bs) bs' = map (\<lambda>(b', b). b'\<lparr>pos := pos b, vel := vel b\<rparr>) (zip bs' bs)"
  using assms by (intro nth_equalityI) (simp_all add: length_unflatten unflatten_nth writeBack_flatten)

lemma unflatten_flatten_same: "unflatten (flatten bs) bs = bs"
  by (intro nth_equalityI) (simp_all add: length_unflatten unflatten_nth writeBack_flatten)

section \<open>The two loops of the evaluator\<close>

lemma sum_skip:
  "(\<Sum>j<(n::nat). if j = i then 0 else g j) = (\<Sum>j \<in> {..<n} - {i}. (g j :: real))"
  by (rule sum.mono_neutral_cong_right) auto

lemma inner_body_step:
  "inner_body this st i j (ax, ay) =
     (ax + (if j = i then 0 else spec_f this st i j * spec_dx st i j),
      ay + (if j = i then 0 else spec_f this st i j * spec_dy st i j))"
  by (simp add: inner_body_def Let_def spec_f_def spec_distSq_def spec_dx_def spec_dy_def
      power2_eq_square mult.commute)

lemma inner_fold:
  "fold (inner_body this st i) [0..<n] (ax, ay) =
     (ax + (\<Sum>j<n. if j = i then 0 else spec_f this st i j * spec_dx st i j),
      ay + (\<Sum>j<n. if j = i then 0 else spec_f this st i j * spec_dy st i j))"
proof (induction n)
  case 0
  show ?case by simp
next
  case (Suc n)
  show ?case by (simp add: Suc inner_body_step)
qed

lemma inner_loop:
  "fold (inner_body this st i) [0..<length (bodies this)] (0, 0) =
     (spec_ax this st i, spec_ay this st i)"
  by (simp add: inner_fold sum_skip spec_ax_def spec_ay_def)

lemma outer_body_eq:
  "outer_body this st i d =
     d[i * 4 := st ! (i * 4 + 2), i * 4 + 1 := st ! (i * 4 + 3),
       i * 4 + 2 := spec_ax this st i, i * 4 + 3 := spec_ay this st i]"
  by (simp add: outer_body_def Let_def inner_loop)

lemma length_outer_body: "length (outer_body this st i d) = length d"
  by (simp add: outer_body_eq)

lemma spec_deriv_row:
  "spec_deriv this st (i * 4) = st ! (i * 4 + 2)"
  "spec_deriv this st (i * 4 + 1) = st ! (i * 4 + 3)"
  "spec_deriv this st (i * 4 + 2) = spec_ax this st i"
  "spec_deriv this st (i * 4 + 3) = spec_ay this st i"
proof -
  have dm: "(i * 4 + r) div 4 = i \<and> (i * 4 + r) mod 4 = r" if "r < 4" for r
    using that by simp
  show "spec_deriv this st (i * 4) = st ! (i * 4 + 2)"
    using dm [of 0] by (simp add: spec_deriv_def Let_def mult.commute)
  show "spec_deriv this st (i * 4 + 1) = st ! (i * 4 + 3)"
    using dm [of 1] by (simp add: spec_deriv_def Let_def mult.commute)
  show "spec_deriv this st (i * 4 + 2) = spec_ax this st i"
    using dm [of 2] by (simp add: spec_deriv_def Let_def mult.commute)
  show "spec_deriv this st (i * 4 + 3) = spec_ay this st i"
    using dm [of 3] by (simp add: spec_deriv_def Let_def mult.commute)
qed

lemma outer_body_nth:
  assumes "k < length d"
  shows "outer_body this st i d ! k = (if k div 4 = i then spec_deriv this st k else d ! k)"
proof (cases "k div 4 = i")
  case True
  then have "k = i * 4 \<or> k = i * 4 + 1 \<or> k = i * 4 + 2 \<or> k = i * 4 + 3"
    by presburger
  then consider "k = i * 4" | "k = i * 4 + 1" | "k = i * 4 + 2" | "k = i * 4 + 3"
    by blast
  then show ?thesis
  proof cases
    case 1
    with assms True show ?thesis by (simp add: outer_body_eq spec_deriv_row)
  next
    case 2
    with assms True show ?thesis using spec_deriv_row(2) [of this st i]
      by (simp add: outer_body_eq)
  next
    case 3
    with assms True show ?thesis using spec_deriv_row(3) [of this st i]
      by (simp add: outer_body_eq)
  next
    case 4
    with assms True show ?thesis using spec_deriv_row(4) [of this st i]
      by (simp add: outer_body_eq)
  qed
next
  case False
  then have "k \<noteq> i * 4" "k \<noteq> i * 4 + 1" "k \<noteq> i * 4 + 2" "k \<noteq> i * 4 + 3" by auto
  then show ?thesis using False by (simp add: outer_body_eq)
qed

lemma outer_fold:
  "length (fold (outer_body this st) [0..<n] d) = length d \<and>
   (\<forall>k<length d. fold (outer_body this st) [0..<n] d ! k =
      (if k div 4 < n then spec_deriv this st k else d ! k))"
proof (induction n)
  case 0
  show ?case by simp
next
  case (Suc n)
  then show ?case
    by (auto simp add: length_outer_body outer_body_nth less_Suc_eq)
qed

lemma getDerivatives_eq:
  assumes "length st = 4 * length (bodies this)"
  shows "getDerivatives this st = Some (map (spec_deriv this st) [0..<length st])"
proof -
  have "fold (outer_body this st) [0..<length (bodies this)] (replicate (length st) 0) =
        map (spec_deriv this st) [0..<length st]"
    using assms outer_fold [of this st "length (bodies this)" "replicate (length st) 0"]
    by (intro nth_equalityI) auto
  then show ?thesis using assms by (simp add: getDerivatives_def Let_def)
qed

section \<open>The stepper in closed form\<close>

lemma getDerivatives_spec:
  assumes "length st = 4 * length (bodies this)"
  shows "getDerivatives this st = Some (spec_derivatives this st)"
  using assms by (simp add: getDerivatives_eq spec_derivatives_def)

lemma getDerivatives_None_iff:
  "getDerivatives this st = None \<longleftrightarrow> length st < 4 * length (bodies this)"
  by (auto simp add: getDerivatives_def Let_def)

lemma length_spec_derivatives: "length (spec_derivatives this st) = length st"
  by (simp add: spec_derivatives_def)

lemma spec_derivatives_nth:
  "k < length st \<Longrightarrow> spec_derivatives this st ! k = spec_deriv this st k"
  by (simp add: spec_derivatives_def)

lemma length_vplus: "length (vplus u v) = min (length u) (length v)"
  by (simp add: vplus_def)

lemma length_vscale: "length (vscale c v) = length v"
  by (simp add: vscale_def)

lemma vplus_nth: "k < length u \<Longrightarrow> k < length v \<Longrightarrow> vplus u v ! k = u ! k + v ! k"
  by (simp add: vplus_def)

lemma vscale_nth: "k < length v \<Longrightarrow> vscale c v ! k = c * v ! k"
  by (simp add: vscale_def)

lemma map_enumerate_upt:
  "map (\<lambda>(i, v). F i v) (enumerate 0 xs) = map (\<lambda>i. F i (xs ! i)) [0..<length xs]"
  by (intro nth_equalityI) (simp_all add: nth_enumerate_eq)

lemma stage_half:
  assumes "length k = length st"
  shows "map (\<lambda>(i, v). v + k ! i * c * 0.5) (enumerate 0 st) = vplus st (vscale (c / 2) k)"
  using assms
  by (intro nth_equalityI) (simp_all add: nth_enumerate_eq length_vplus length_vscale vplus_nth vscale_nth)

lemma stage_half':
  assumes "length k = length st"
  shows "map (\<lambda>(i, v). v + k ! i * c / 2) (enumerate 0 st) = vplus st (vscale (c / 2) k)"
  using stage_half [OF assms, of c] by simp

lemma stage_full:
  assumes "length k = length st"
  shows "map (\<lambda>(i, v). v + k ! i * c) (enumerate 0 st) = vplus st (vscale c k)"
  using assms
  by (intro nth_equalityI) (simp_all add: nth_enumerate_eq length_vplus length_vscale vplus_nth vscale_nth)

lemma fold_update_upt:
  "n \<le> length st \<Longrightarrow>
     fold (\<lambda>i s. s[i := s ! i + g i]) [0..<n] st =
     map (\<lambda>i. if i < n then st ! i + g i else st ! i) [0..<length st]"
proof (induction n)
  case 0
  show ?case by (simp add: map_nth)
next
  case (Suc n)
  then show ?case
    by (intro nth_equalityI) (auto simp add: nth_list_update less_Suc_eq)
qed

lemma combine_eq:
  assumes "length k1 = length st" "length k2 = length st" "length k3 = length st" "length k4 = length st"
  shows "combine c k1 k2 k3 k4 st =
           vplus st (vscale (c / 6) (vplus (vplus (vplus k1 (vscale 2 k2)) (vscale 2 k3)) k4))"
  using assms unfolding combine_def
  by (intro nth_equalityI)
     (simp_all add: fold_update_upt length_vplus length_vscale vplus_nth vscale_nth)


lemma length_spec_k1: "length (spec_k1 this s0) = length s0"
  by (simp add: spec_k1_def length_spec_derivatives)

lemma length_spec_k2: "length (spec_k2 this c s0) = length s0"
  by (simp add: spec_k2_def length_spec_derivatives length_vplus length_vscale length_spec_k1)

lemma length_spec_k3: "length (spec_k3 this c s0) = length s0"
  by (simp add: spec_k3_def length_spec_derivatives length_vplus length_vscale length_spec_k2)

lemma length_spec_k4: "length (spec_k4 this c s0) = length s0"
  by (simp add: spec_k4_def length_spec_derivatives length_vplus length_vscale length_spec_k3)

lemmas length_spec_ks = length_spec_k1 length_spec_k2 length_spec_k3 length_spec_k4

lemma length_spec_rk4: "length (spec_rk4 this c s0) = length s0"
  by (simp add: spec_rk4_def length_vplus length_vscale length_spec_ks)

lemma forEach_writeBack:
  "map (\<lambda>(i, b). recordTrail p (writeBack st i b)) (enumerate 0 bs) =
     map (recordTrail p) (unflatten st bs)"
  by (simp add: unflatten_def split_def)

lemma integrate_stages:
  assumes "bodies this \<noteq> []"
  defines "s0 \<equiv> flatten (bodies this)"
  shows "getDerivatives this s0 = Some (spec_k1 this s0)"
    and "getDerivatives this (vplus s0 (vscale (c / 2) (spec_k1 this s0))) = Some (spec_k2 this c s0)"
    and "getDerivatives this (vplus s0 (vscale (c / 2) (spec_k2 this c s0))) = Some (spec_k3 this c s0)"
    and "getDerivatives this (vplus s0 (vscale c (spec_k3 this c s0))) = Some (spec_k4 this c s0)"
proof -
  have len: "length s0 = 4 * length (bodies this)"
    by (simp add: s0_def length_flatten)
  show "getDerivatives this s0 = Some (spec_k1 this s0)"
    using len by (simp add: getDerivatives_spec spec_k1_def)
  show "getDerivatives this (vplus s0 (vscale (c / 2) (spec_k1 this s0))) = Some (spec_k2 this c s0)"
    using len
    by (simp add: getDerivatives_spec spec_k2_def length_vplus length_vscale length_spec_ks)
  show "getDerivatives this (vplus s0 (vscale (c / 2) (spec_k2 this c s0))) = Some (spec_k3 this c s0)"
    using len
    by (simp add: getDerivatives_spec spec_k3_def length_vplus length_vscale length_spec_ks)
  show "getDerivatives this (vplus s0 (vscale c (spec_k3 this c s0))) = Some (spec_k4 this c s0)"
    using len
    by (simp add: getDerivatives_spec spec_k4_def length_vplus length_vscale length_spec_ks)
qed

lemma integrate_eq:
  assumes "bodies this \<noteq> []"
  shows "integrate this c =
           Some (this\<lparr>bodies := map (recordTrail (paused this))
                   (unflatten (spec_rk4 this c (flatten (bodies this))) (bodies this))\<rparr>)"
  using assms
  by (simp add: integrate_def Let_def integrate_stages [OF assms] stage_half' stage_full
      length_spec_ks combine_eq forEach_writeBack spec_rk4_def)

lemma integrate_empty: "bodies this = [] \<Longrightarrow> integrate this c = Some this"
  by (simp add: integrate_def)

lemma recordTrail_phys [simp]:
  "mass (recordTrail p b) = mass b"
  "pos (recordTrail p b) = pos b"
  "vel (recordTrail p b) = vel b"
  by (simp_all add: recordTrail_def Let_def)

lemma writeBack_fields:
  "mass (writeBack st i b) = mass b"
  "pos (writeBack st i b) = \<lparr>x = st ! (i * 4), y = st ! (i * 4 + 1)\<rparr>"
  "vel (writeBack st i b) = \<lparr>x = st ! (i * 4 + 2), y = st ! (i * 4 + 3)\<rparr>"
  "trail (writeBack st i b) = trail b"
  by (simp_all add: writeBack_def Let_def)

lemma flatten_eqI:
  assumes len: "length st = 4 * length bs"
    and rows: "\<And>i. i < length bs \<Longrightarrow>
       st ! (i * 4) = x (pos (bs ! i)) \<and> st ! (i * 4 + 1) = y (pos (bs ! i)) \<and>
       st ! (i * 4 + 2) = x (vel (bs ! i)) \<and> st ! (i * 4 + 3) = y (vel (bs ! i))"
  shows "flatten bs = st"
proof (rule nth_equalityI)
  show "length (flatten bs) = length st" by (simp add: len length_flatten)
next
  fix k assume "k < length (flatten bs)"
  then have k: "k < 4 * length bs" by (simp add: length_flatten)
  define i where "i = k div 4"
  have i: "i < length bs" using k by (simp add: i_def)
  have "k = i * 4 \<or> k = i * 4 + 1 \<or> k = i * 4 + 2 \<or> k = i * 4 + 3"
    unfolding i_def by presburger
  then show "flatten bs ! k = st ! k"
    using flatten_nth [OF i] rows [OF i] by auto
qed

lemma flatten_written:
  assumes "length st = 4 * length bs"
  shows "flatten (map (recordTrail p) (unflatten st bs)) = st"
  using assms
  by (intro flatten_eqI) (simp_all add: length_unflatten unflatten_nth writeBack_fields)

section \<open>Claims about flattening and the empty body list\<close>

text \<open>
  Claim C3. For every body list, the flattened vector has four times as many components
  as there are bodies, and holds \<open>pos.x\<close>, \<open>pos.y\<close>, \<open>vel.x\<close>, \<open>vel.y\<close> of body \<open>i\<close>
  at the four indices from \<open>4i\<close> on. Writing the vector back into the bodies it came from
  changes nothing, and writing it into any other list of as many bodies (a fresh copy)
  reproduces every position and velocity, in order.
\<close>

theorem flatten_unflatten_roundtrip:
  "length (flatten bs) = 4 * length bs \<and>
   (\<forall>i<length bs.
      flatten bs ! (4 * i) = x (pos (bs ! i)) \<and> flatten bs ! (4 * i + 1) = y (pos (bs ! i)) \<and>
      flatten bs ! (4 * i + 2) = x (vel (bs ! i)) \<and> flatten bs ! (4 * i + 3) = y (vel (bs ! i))) \<and>
   unflatten (flatten bs) bs = bs \<and>
   (\<forall>fresh. length fresh = length bs \<longrightarrow>
      map pos (unflatten (flatten bs) fresh) = map pos bs \<and>
      map vel (unflatten (flatten bs) fresh) = map vel bs \<and>
      flatten (unflatten (flatten bs) fresh) = flatten bs)"
proof (intro conjI allI impI)
  show "length (flatten bs) = 4 * length bs" by (rule length_flatten)
next
  fix i assume "i < length bs"
  from flatten_nth [OF this]
  show "flatten bs ! (4 * i) = x (pos (bs ! i))" "flatten bs ! (4 * i + 1) = y (pos (bs ! i))"
    "flatten bs ! (4 * i + 2) = x (vel (bs ! i))" "flatten bs ! (4 * i + 3) = y (vel (bs ! i))"
    by (simp_all add: mult.commute)
next
  show "unflatten (flatten bs) bs = bs" by (rule unflatten_flatten_same)
next
  fix fresh :: "Body list" assume len: "length fresh = length bs"
  show "map pos (unflatten (flatten bs) fresh) = map pos bs"
    using len
    by (intro nth_equalityI) (simp_all add: length_unflatten unflatten_nth writeBack_flatten)
  show "map vel (unflatten (flatten bs) fresh) = map vel bs"
    using len
    by (intro nth_equalityI) (simp_all add: length_unflatten unflatten_nth writeBack_flatten)
  show "flatten (unflatten (flatten bs) fresh) = flatten bs"
  proof (rule flatten_eqI)
    show "length (flatten bs) = 4 * length (unflatten (flatten bs) fresh)"
      using len by (simp add: length_flatten length_unflatten)
  next
    fix i assume "i < length (unflatten (flatten bs) fresh)"
    then have i: "i < length bs" using len by (simp add: length_unflatten)
    then have i': "i < length fresh" using len by simp
    show "flatten bs ! (i * 4) = x (pos (unflatten (flatten bs) fresh ! i)) \<and>
          flatten bs ! (i * 4 + 1) = y (pos (unflatten (flatten bs) fresh ! i)) \<and>
          flatten bs ! (i * 4 + 2) = x (vel (unflatten (flatten bs) fresh ! i)) \<and>
          flatten bs ! (i * 4 + 3) = y (vel (unflatten (flatten bs) fresh ! i))"
      using flatten_nth [OF i] by (simp add: unflatten_nth [OF i'] writeBack_flatten [OF i])
  qed
qed

theorem flatten_unflatten_roundtrip_witness:
  "length (flatten solar) = 12 \<and>
   length pythagorean = length solar \<and>
   map pos (unflatten (flatten solar) pythagorean) = map pos solar \<and>
   map vel (unflatten (flatten solar) pythagorean) = map vel solar"
proof -
  have len: "length pythagorean = length solar" by (simp add: pythagorean_def solar_def)
  have three: "length solar = 3" by (simp add: solar_def)
  from flatten_unflatten_roundtrip [of solar] len three show ?thesis by simp
qed

text \<open>
  Claim C4. For every step size, \<^verbatim>\<open>integrate\<close> on a simulation with no bodies returns
  normally and leaves the whole simulation as it was: bodies, trails and every field.
\<close>

theorem integrate_no_bodies:
  "bodies this = [] \<Longrightarrow> integrate this dt' = Some this"
  by (simp add: integrate_def)

theorem integrate_no_bodies_witness:
  "bodies (newSimulation []) = [] \<and>
   integrate (newSimulation []) 0.015 = Some (newSimulation [])"
proof -
  have h: "bodies (newSimulation []) = []" by (simp add: newSimulation_def)
  from h integrate_no_bodies [OF h, of "0.015"] show ?thesis by (rule conjI)
qed

section \<open>Claims about the evaluator and the RK4 step\<close>

text \<open>
  Claim C2. For every state vector with four components per body, \<^verbatim>\<open>getDerivatives\<close>
  returns a vector of the same length and layout: for every body \<open>i\<close>, components \<open>4i\<close>
  and \<open>4i + 1\<close> are the velocity components \<open>state[4i + 2]\<close> and \<open>state[4i + 3]\<close>, and
  components \<open>4i + 2\<close> and \<open>4i + 3\<close> are the sums over all \<open>j \<noteq> i\<close> of \<open>f \<cdot> dx\<close> and
  \<open>f \<cdot> dy\<close>, with \<open>f = G \<cdot> mass\<^sub>j / (distSq + SOFTENING)\<^bsup>1.5\<^esup>\<close>, \<open>G = 1\<close> and
  \<open>SOFTENING = 0.1\<close>.
\<close>

theorem getDerivatives_layout:
  assumes "length state = 4 * length (bodies this)"
  shows "G = 1 \<and> SOFTENING = 0.1 \<and>
    (\<exists>deriv. getDerivatives this state = Some deriv \<and> length deriv = length state \<and>
      (\<forall>i<length (bodies this).
         deriv ! (4 * i) = state ! (4 * i + 2) \<and>
         deriv ! (4 * i + 1) = state ! (4 * i + 3) \<and>
         deriv ! (4 * i + 2) =
           (\<Sum>j \<in> {..<length (bodies this)} - {i}. spec_f this state i j * spec_dx state i j) \<and>
         deriv ! (4 * i + 3) =
           (\<Sum>j \<in> {..<length (bodies this)} - {i}. spec_f this state i j * spec_dy state i j)))"
proof (intro conjI exI allI impI)
  show "G = 1" by (simp add: G_def)
  show "SOFTENING = 0.1" by (simp add: SOFTENING_def)
  show "getDerivatives this state = Some (spec_derivatives this state)"
    using assms by (rule getDerivatives_spec)
  show "length (spec_derivatives this state) = length state"
    by (rule length_spec_derivatives)
next
  fix i assume i: "i < length (bodies this)"
  have rows: "spec_derivatives this state ! (i * 4 + r) = spec_deriv this state (i * 4 + r)"
    if "r < 4" for r
    using that i assms by (simp add: spec_derivatives_nth)
  show "spec_derivatives this state ! (4 * i) = state ! (4 * i + 2)"
    using rows [of 0] spec_deriv_row(1) [of this state i] by (simp add: mult.commute)
  show "spec_derivatives this state ! (4 * i + 1) = state ! (4 * i + 3)"
    using rows [of 1] spec_deriv_row(2) [of this state i] by (simp add: mult.commute)
  show "spec_derivatives this state ! (4 * i + 2) =
      (\<Sum>j \<in> {..<length (bodies this)} - {i}. spec_f this state i j * spec_dx state i j)"
    using rows [of 2] spec_deriv_row(3) [of this state i]
    by (simp add: mult.commute spec_ax_def)
  show "spec_derivatives this state ! (4 * i + 3) =
      (\<Sum>j \<in> {..<length (bodies this)} - {i}. spec_f this state i j * spec_dy state i j)"
    using rows [of 3] spec_deriv_row(4) [of this state i]
    by (simp add: mult.commute spec_ay_def)
qed


theorem getDerivatives_layout_witness:
  "length (flatten solar) = 4 * length (bodies (newSimulation solar)) \<and>
   (\<exists>deriv. getDerivatives (newSimulation solar) (flatten solar) = Some deriv \<and>
      length deriv = 12 \<and> deriv ! 4 = 0 \<and> deriv ! 5 = 1.8)"
proof -
  have h: "length (flatten solar) = 4 * length (bodies (newSimulation solar))"
    by (simp add: length_flatten newSimulation_def)
  have three: "length (bodies (newSimulation solar)) = 3"
    by (simp add: newSimulation_def solar_def)
  have vals: "flatten solar ! 6 = 0" "flatten solar ! 7 = 1.8"
    by (simp_all add: flatten_concat solar_def)
  from getDerivatives_layout [OF h] obtain deriv where
    d: "getDerivatives (newSimulation solar) (flatten solar) = Some deriv"
      "length deriv = length (flatten solar)"
      "\<forall>i<length (bodies (newSimulation solar)).
         deriv ! (4 * i) = flatten solar ! (4 * i + 2) \<and>
         deriv ! (4 * i + 1) = flatten solar ! (4 * i + 3)"
    by blast
  have "1 < length (bodies (newSimulation solar))" using three by simp
  from d(3) [rule_format, OF this] vals have "deriv ! 4 = 0" "deriv ! 5 = 1.8"
    by simp_all
  with d(1,2) h three show ?thesis by simp
qed

text \<open>
  Claim C1. For every non-empty body list and every step size, one call of
  \<^verbatim>\<open>integrate\<close> is the classical RK4 step: with \<open>s0\<close> the flattened state and
  \<open>k1\<close>, \<open>k2\<close>, \<open>k3\<close>, \<open>k4\<close> the results of \<^verbatim>\<open>getDerivatives\<close> at \<open>s0\<close>,
  \<open>s0 + (dt/2) k1\<close>, \<open>s0 + (dt/2) k2\<close> and \<open>s0 + dt k3\<close>, the positions and velocities
  of the bodies after the call, flattened, are \<open>s0 + (dt/6) (k1 + 2 k2 + 2 k3 + k4)\<close>.
  The bodies are written once, from that final vector.
\<close>

theorem integrate_rk4:
  assumes "bodies this \<noteq> []"
  shows "\<exists>k1 k2 k3 k4 next.
    getDerivatives this (flatten (bodies this)) = Some k1 \<and>
    getDerivatives this (vplus (flatten (bodies this)) (vscale (dt' / 2) k1)) = Some k2 \<and>
    getDerivatives this (vplus (flatten (bodies this)) (vscale (dt' / 2) k2)) = Some k3 \<and>
    getDerivatives this (vplus (flatten (bodies this)) (vscale dt' k3)) = Some k4 \<and>
    integrate this dt' = Some next \<and>
    length (bodies next) = length (bodies this) \<and>
    flatten (bodies next) =
      vplus (flatten (bodies this))
        (vscale (dt' / 6) (vplus (vplus (vplus k1 (vscale 2 k2)) (vscale 2 k3)) k4))"
proof -
  let ?s0 = "flatten (bodies this)"
  let ?next = "this\<lparr>bodies := map (recordTrail (paused this))
                   (unflatten (spec_rk4 this dt' ?s0) (bodies this))\<rparr>"
  have "integrate this dt' = Some ?next" by (rule integrate_eq [OF assms])
  moreover have "length (bodies ?next) = length (bodies this)"
    by (simp add: length_unflatten)
  moreover have "flatten (bodies ?next) = spec_rk4 this dt' ?s0"
    by (simp add: flatten_written length_spec_rk4 length_flatten)
  ultimately show ?thesis
    using integrate_stages [OF assms] unfolding spec_rk4_def by blast
qed

theorem integrate_rk4_witness:
  "bodies (newSimulation solar) \<noteq> [] \<and>
   (\<exists>k1 k2 k3 k4 next.
    getDerivatives (newSimulation solar) (flatten solar) = Some k1 \<and>
    getDerivatives (newSimulation solar) (vplus (flatten solar) (vscale (0.015 / 2) k1)) = Some k2 \<and>
    getDerivatives (newSimulation solar) (vplus (flatten solar) (vscale (0.015 / 2) k2)) = Some k3 \<and>
    getDerivatives (newSimulation solar) (vplus (flatten solar) (vscale 0.015 k3)) = Some k4 \<and>
    integrate (newSimulation solar) 0.015 = Some next \<and>
    length (bodies next) = 3 \<and>
    flatten (bodies next) =
      vplus (flatten solar)
        (vscale (0.015 / 6) (vplus (vplus (vplus k1 (vscale 2 k2)) (vscale 2 k3)) k4)))"
proof -
  have b: "bodies (newSimulation solar) = solar" by (simp add: newSimulation_def)
  have h: "bodies (newSimulation solar) \<noteq> []" unfolding b by (simp add: solar_def)
  have three: "length solar = 3" by (simp add: solar_def)
  from integrate_rk4 [OF h, of "0.015"] h show ?thesis
    unfolding b three by blast
qed

lemma single_accel:
  assumes "length (bodies this) = 1"
  shows "spec_ax this st 0 = 0" "spec_ay this st 0 = 0"
proof -
  have e: "{..<length (bodies this)} - {0} = {}" using assms by auto
  show "spec_ax this st 0 = 0" "spec_ay this st 0 = 0"
    unfolding spec_ax_def spec_ay_def e by simp_all
qed

lemma single_derivatives:
  assumes one: "length (bodies this) = 1" and len: "length st = 4"
  shows "spec_derivatives this st = [st ! 2, st ! 3, 0, 0]"
proof -
  have upt4: "[0..<4] = [0, 1, 2, 3]" by (simp add: upt_rec)
  have r0: "spec_deriv this st 0 = st ! 2" by (simp add: spec_deriv_def numeral_2_eq_2)
  have r1: "spec_deriv this st 1 = st ! 3" by (simp add: spec_deriv_def)
  have r2: "spec_deriv this st 2 = 0" by (simp add: spec_deriv_def single_accel [OF one])
  have r3: "spec_deriv this st 3 = 0" by (simp add: spec_deriv_def single_accel [OF one])
  show ?thesis
    unfolding spec_derivatives_def len upt4 list.map r0 r1 r2 r3 by (rule refl)
qed

lemma single_rk4:
  assumes one: "length (bodies this) = 1"
  shows "spec_rk4 this c [px, py, vx, vy] = [px + c * vx, py + c * vy, vx, vy]"
proof -
  have d: "spec_derivatives this [a, b, vx, vy] = [vx, vy, 0, 0]" for a b
    using single_derivatives [OF one, of "[a, b, vx, vy]"] by simp
  have k1: "spec_k1 this [px, py, vx, vy] = [vx, vy, 0, 0]"
    by (simp add: spec_k1_def d)
  have k2: "spec_k2 this c [px, py, vx, vy] = [vx, vy, 0, 0]"
    by (simp add: spec_k2_def k1 vplus_def vscale_def d)
  have k3: "spec_k3 this c [px, py, vx, vy] = [vx, vy, 0, 0]"
    by (simp add: spec_k3_def k2 vplus_def vscale_def d)
  have k4: "spec_k4 this c [px, py, vx, vy] = [vx, vy, 0, 0]"
    by (simp add: spec_k4_def k3 vplus_def vscale_def d)
  show ?thesis
    by (simp add: spec_rk4_def k1 k2 k3 k4 vplus_def vscale_def algebra_simps)
qed

text \<open>
  In exact arithmetic, with a single body, the evaluator gives zero acceleration for
  every state, and one call of \<^verbatim>\<open>integrate\<close> moves the body in a straight line.
\<close>

lemma single_body_exact:
  assumes "bodies this = [b]"
  shows "(\<forall>state. length state = 4 \<longrightarrow>
            getDerivatives this state = Some [state ! 2, state ! 3, 0, 0]) \<and>
         (\<exists>next b'. integrate this dt' = Some next \<and> bodies next = [b'] \<and>
            x (pos b') = x (pos b) + dt' * x (vel b) \<and>
            y (pos b') = y (pos b) + dt' * y (vel b) \<and>
            vel b' = vel b \<and> mass b' = mass b)"
proof (intro conjI allI impI)
  fix state :: StateVector assume "length state = 4"
  then show "getDerivatives this state = Some [state ! 2, state ! 3, 0, 0]"
    using assms by (simp add: getDerivatives_spec single_derivatives)
next
  have one: "length (bodies this) = 1" using assms by simp
  have ne: "bodies this \<noteq> []" using assms by simp
  have fl: "flatten [b] = [x (pos b), y (pos b), x (vel b), y (vel b)]"
    by (simp add: flatten_concat)
  show "\<exists>next b'. integrate this dt' = Some next \<and> bodies next = [b'] \<and>
            x (pos b') = x (pos b) + dt' * x (vel b) \<and>
            y (pos b') = y (pos b) + dt' * y (vel b) \<and>
            vel b' = vel b \<and> mass b' = mass b"
    by (simp add: integrate_eq [OF ne] assms fl single_rk4 [OF one] unflatten_def
        writeBack_fields)
qed

section \<open>Two bodies: symmetry and softening\<close>

lemma spec_dx_antisym: "spec_dx st j i = - spec_dx st i j"
  by (simp add: spec_dx_def)

lemma spec_dy_antisym: "spec_dy st j i = - spec_dy st i j"
  by (simp add: spec_dy_def)

lemma spec_distSq_sym: "spec_distSq st j i = spec_distSq st i j"
  by (simp add: spec_distSq_def spec_dx_antisym [of st j i] spec_dy_antisym [of st j i])

lemma pair_accel:
  assumes "length (bodies this) = 2"
  shows "spec_ax this st 0 = spec_f this st 0 (Suc 0) * spec_dx st 0 (Suc 0)"
    and "spec_ay this st 0 = spec_f this st 0 (Suc 0) * spec_dy st 0 (Suc 0)"
    and "spec_ax this st (Suc 0) = spec_f this st (Suc 0) 0 * spec_dx st (Suc 0) 0"
    and "spec_ay this st (Suc 0) = spec_f this st (Suc 0) 0 * spec_dy st (Suc 0) 0"
proof -
  have e0: "{..<length (bodies this)} - {0} = {Suc 0}" using assms by auto
  have e1: "{..<length (bodies this)} - {Suc 0} = {0}" using assms by auto
  show "spec_ax this st 0 = spec_f this st 0 (Suc 0) * spec_dx st 0 (Suc 0)"
    and "spec_ay this st 0 = spec_f this st 0 (Suc 0) * spec_dy st 0 (Suc 0)"
    unfolding spec_ax_def spec_ay_def e0 by simp_all
  show "spec_ax this st (Suc 0) = spec_f this st (Suc 0) 0 * spec_dx st (Suc 0) 0"
    and "spec_ay this st (Suc 0) = spec_f this st (Suc 0) 0 * spec_dy st (Suc 0) 0"
    unfolding spec_ax_def spec_ay_def e1 by simp_all
qed

lemma pair_derivatives:
  assumes two: "length (bodies this) = 2" and len: "length st = 8"
  shows "spec_derivatives this st ! 2 = spec_f this st 0 (Suc 0) * spec_dx st 0 (Suc 0)"
    and "spec_derivatives this st ! 3 = spec_f this st 0 (Suc 0) * spec_dy st 0 (Suc 0)"
    and "spec_derivatives this st ! 6 = spec_f this st (Suc 0) 0 * spec_dx st (Suc 0) 0"
    and "spec_derivatives this st ! 7 = spec_f this st (Suc 0) 0 * spec_dy st (Suc 0) 0"
proof -
  have r2: "spec_deriv this st 2 = spec_ax this st 0" by (simp add: spec_deriv_def)
  have r3: "spec_deriv this st 3 = spec_ay this st 0" by (simp add: spec_deriv_def)
  have r6: "spec_deriv this st 6 = spec_ax this st 1" by (simp add: spec_deriv_def)
  have r7: "spec_deriv this st 7 = spec_ay this st 1" by (simp add: spec_deriv_def)
  show "spec_derivatives this st ! 2 = spec_f this st 0 (Suc 0) * spec_dx st 0 (Suc 0)"
    using len by (simp add: spec_derivatives_nth r2 pair_accel [OF two])
  show "spec_derivatives this st ! 3 = spec_f this st 0 (Suc 0) * spec_dy st 0 (Suc 0)"
    using len by (simp add: spec_derivatives_nth r3 pair_accel [OF two])
  show "spec_derivatives this st ! 6 = spec_f this st (Suc 0) 0 * spec_dx st (Suc 0) 0"
    using len by (simp add: spec_derivatives_nth r6 pair_accel [OF two])
  show "spec_derivatives this st ! 7 = spec_f this st (Suc 0) 0 * spec_dy st (Suc 0) 0"
    using len by (simp add: spec_derivatives_nth r7 pair_accel [OF two])
qed

text \<open>
  Claim C6. For two bodies of equal mass, with positions opposite about the origin and
  opposite velocities, the evaluator gives equal and opposite accelerations: components
  2 and 3 of the derivative (body 0) are the negations of components 6 and 7 (body 1).
\<close>

theorem two_body_symmetry:
  assumes "bodies this = [b0, b1]"
    and "mass b0 = mass b1"
    and "x (pos b1) = - x (pos b0)" and "y (pos b1) = - y (pos b0)"
    and "x (vel b1) = - x (vel b0)" and "y (vel b1) = - y (vel b0)"
  shows "\<exists>deriv. getDerivatives this (flatten (bodies this)) = Some deriv \<and>
           deriv ! 2 = - deriv ! 6 \<and> deriv ! 3 = - deriv ! 7"
proof -
  let ?st = "flatten (bodies this)"
  have two: "length (bodies this) = 2" using assms(1) by simp
  have len: "length ?st = 8" by (simp add: length_flatten two)
  have f: "spec_f this ?st (Suc 0) 0 = spec_f this ?st 0 (Suc 0)"
    unfolding spec_f_def spec_distSq_sym [of ?st "Suc 0" 0] using assms(1,2) by simp
  have "getDerivatives this ?st = Some (spec_derivatives this ?st)"
    by (simp add: getDerivatives_spec length_flatten)
  moreover have "spec_derivatives this ?st ! 2 = - spec_derivatives this ?st ! 6"
    by (simp add: pair_derivatives [OF two len] f spec_dx_antisym [of ?st "Suc 0" 0])
  moreover have "spec_derivatives this ?st ! 3 = - spec_derivatives this ?st ! 7"
    by (simp add: pair_derivatives [OF two len] f spec_dy_antisym [of ?st "Suc 0" 0])
  ultimately show ?thesis by blast
qed

theorem two_body_symmetry_witness:
  "\<exists>deriv. getDerivatives (newSimulation [left_body, right_body])
              (flatten (bodies (newSimulation [left_body, right_body]))) = Some deriv \<and>
           deriv ! 2 = - deriv ! 6 \<and> deriv ! 3 = - deriv ! 7"
proof (rule two_body_symmetry [of _ left_body right_body])
  show "bodies (newSimulation [left_body, right_body]) = [left_body, right_body]"
    by (simp add: newSimulation_def)
qed (simp_all add: left_body_def right_body_def)


lemma denominator_pos:
  fixes dx dy :: real
  shows "0 < dx * dx + dy * dy + SOFTENING" and "0 < (dx * dx + dy * dy + SOFTENING) powr 1.5"
proof -
  have "0 \<le> dx * dx + dy * dy" by simp
  moreover have "0 < SOFTENING" by (simp add: SOFTENING_def)
  ultimately show "0 < dx * dx + dy * dy + SOFTENING" by linarith
  then show "0 < (dx * dx + dy * dy + SOFTENING) powr 1.5" by simp
qed

lemma coincident_pair_adds_nothing:
  assumes "state ! (j * 4) = state ! (i * 4)" and "state ! (j * 4 + 1) = state ! (i * 4 + 1)"
  shows "inner_body this state i j (ax, ay) = (ax, ay)"
  using assms by (simp add: inner_body_def Let_def)


lemma softened_ratio:
  fixes dx dy :: real
  shows "\<bar>dx\<bar> \<le> (dx * dx + dy * dy + SOFTENING) / SOFTENING"
proof -
  have "0 \<le> (\<bar>dx\<bar> - 1 / 20)\<^sup>2" by simp
  then have "\<bar>dx\<bar> / 10 \<le> dx * dx + 1 / 400"
    by (simp add: power2_eq_square algebra_simps)
  moreover have "0 \<le> dy * dy" by simp
  ultimately have "\<bar>dx\<bar> / 10 \<le> dx * dx + dy * dy + 1 / 10" by linarith
  then show ?thesis by (simp add: SOFTENING_def field_simps)
qed

lemma pull_bound:
  fixes dx dy m :: real
  assumes "0 \<le> m"
  shows "\<bar>G * m / (dx * dx + dy * dy + SOFTENING) powr 1.5 * dx\<bar> \<le> m / SOFTENING powr 1.5"
proof -
  let ?D = "dx * dx + dy * dy + SOFTENING"
  have S: "0 < SOFTENING" by (simp add: SOFTENING_def)
  have D: "0 < ?D" by (rule denominator_pos)
  have one: "1 \<le> ?D / SOFTENING" using S by (simp add: field_simps)
  have "\<bar>dx\<bar> \<le> ?D / SOFTENING" by (rule softened_ratio)
  also have "\<dots> = (?D / SOFTENING) powr 1" using S D by (simp add: abs_of_pos)
  also have "\<dots> \<le> (?D / SOFTENING) powr 1.5" using one by (intro powr_mono) simp_all
  also have "\<dots> = ?D powr 1.5 / SOFTENING powr 1.5"
    using S D by (simp add: powr_divide)
  finally have "\<bar>dx\<bar> / ?D powr 1.5 \<le> 1 / SOFTENING powr 1.5"
    using S D by (simp add: field_simps)
  then have le: "m * (\<bar>dx\<bar> / ?D powr 1.5) \<le> m * (1 / SOFTENING powr 1.5)"
    using assms by (rule mult_left_mono)
  have eq: "\<bar>G * m / ?D powr 1.5 * dx\<bar> = m * (\<bar>dx\<bar> / ?D powr 1.5)"
    using assms by (simp add: G_def abs_mult)
  show ?thesis unfolding eq using le by simp
qed


lemma pair_pull_bound:
  assumes "0 \<le> mass (bodies this ! j)"
  shows "\<bar>spec_f this st i j * spec_dx st i j\<bar> \<le> mass (bodies this ! j) / SOFTENING powr 1.5"
    and "\<bar>spec_f this st i j * spec_dy st i j\<bar> \<le> mass (bodies this ! j) / SOFTENING powr 1.5"
proof -
  show "\<bar>spec_f this st i j * spec_dx st i j\<bar> \<le> mass (bodies this ! j) / SOFTENING powr 1.5"
    unfolding spec_f_def spec_distSq_def power2_eq_square
    by (rule pull_bound [OF assms])
  have "spec_dx st i j * spec_dx st i j + spec_dy st i j * spec_dy st i j =
        spec_dy st i j * spec_dy st i j + spec_dx st i j * spec_dx st i j" by simp
  then show "\<bar>spec_f this st i j * spec_dy st i j\<bar> \<le> mass (bodies this ! j) / SOFTENING powr 1.5"
    unfolding spec_f_def spec_distSq_def power2_eq_square
    using pull_bound [OF assms, of "spec_dy st i j" "spec_dx st i j"] by (simp add: add.commute)
qed

text \<open>
  In exact arithmetic: two bodies at the same position have zero acceleration, the
  acceleration components of two bodies at any positions are bounded by the mass of the
  other body over \<open>SOFTENING\<^bsup>1.5\<^esup>\<close> when that mass is not negative, and the softened
  denominator is positive.
\<close>

lemma two_body_exact:
  assumes "bodies this = [b0, b1]"
  shows "(pos b0 = pos b1 \<longrightarrow>
           (\<exists>deriv. getDerivatives this (flatten (bodies this)) = Some deriv \<and>
              deriv ! 2 = 0 \<and> deriv ! 3 = 0 \<and> deriv ! 6 = 0 \<and> deriv ! 7 = 0)) \<and>
         (\<forall>state. length state = 8 \<longrightarrow>
           (\<exists>deriv. getDerivatives this state = Some deriv \<and>
              (0 \<le> mass b1 \<longrightarrow>
                 \<bar>deriv ! 2\<bar> \<le> mass b1 / SOFTENING powr 1.5 \<and>
                 \<bar>deriv ! 3\<bar> \<le> mass b1 / SOFTENING powr 1.5) \<and>
              (0 \<le> mass b0 \<longrightarrow>
                 \<bar>deriv ! 6\<bar> \<le> mass b0 / SOFTENING powr 1.5 \<and>
                 \<bar>deriv ! 7\<bar> \<le> mass b0 / SOFTENING powr 1.5))) \<and>
         (\<forall>dx dy :: real. 0 < dx * dx + dy * dy + SOFTENING \<and>
            (dx * dx + dy * dy + SOFTENING) powr 1.5 \<noteq> 0) \<and>
         (\<forall>state i j acc. state ! (j * 4) = state ! (i * 4) \<and>
            state ! (j * 4 + 1) = state ! (i * 4 + 1) \<longrightarrow>
            inner_body this state i j acc = acc)"
proof (intro conjI allI impI)
  assume same: "pos b0 = pos b1"
  let ?st = "flatten (bodies this)"
  have two: "length (bodies this) = 2" using assms(1) by simp
  have len: "length ?st = 8" by (simp add: length_flatten two)
  have fl: "?st = [x (pos b0), y (pos b0), x (vel b0), y (vel b0),
                   x (pos b1), y (pos b1), x (vel b1), y (vel b1)]"
    by (simp add: assms(1) flatten_concat)
  have dx: "spec_dx ?st 0 (Suc 0) = 0" "spec_dx ?st (Suc 0) 0 = 0"
    unfolding fl spec_dx_def using same by simp_all
  have dy: "spec_dy ?st 0 (Suc 0) = 0" "spec_dy ?st (Suc 0) 0 = 0"
    unfolding fl spec_dy_def using same by simp_all
  have zero: "spec_derivatives this ?st ! 2 = 0" "spec_derivatives this ?st ! 3 = 0"
    "spec_derivatives this ?st ! 6 = 0" "spec_derivatives this ?st ! 7 = 0"
    unfolding pair_derivatives [OF two len] dx dy by simp_all
  have "getDerivatives this ?st = Some (spec_derivatives this ?st)"
    by (simp add: getDerivatives_spec length_flatten)
  with zero show "\<exists>deriv. getDerivatives this ?st = Some deriv \<and>
            deriv ! 2 = 0 \<and> deriv ! 3 = 0 \<and> deriv ! 6 = 0 \<and> deriv ! 7 = 0"
    by simp
next
  fix state :: StateVector assume len: "length state = 8"
  have two: "length (bodies this) = 2" using assms(1) by simp
  have m: "mass (bodies this ! 0) = mass b0" "mass (bodies this ! Suc 0) = mass b1"
    using assms(1) by simp_all
  have "getDerivatives this state = Some (spec_derivatives this state)"
    using len two by (simp add: getDerivatives_spec)
  moreover have "\<bar>spec_derivatives this state ! 2\<bar> \<le> mass b1 / SOFTENING powr 1.5"
    and "\<bar>spec_derivatives this state ! 3\<bar> \<le> mass b1 / SOFTENING powr 1.5"
    if "0 \<le> mass b1"
    unfolding pair_derivatives [OF two len]
    using pair_pull_bound [of this "Suc 0" state 0] that m(2) by simp_all
  moreover have "\<bar>spec_derivatives this state ! 6\<bar> \<le> mass b0 / SOFTENING powr 1.5"
    and "\<bar>spec_derivatives this state ! 7\<bar> \<le> mass b0 / SOFTENING powr 1.5"
    if "0 \<le> mass b0"
    unfolding pair_derivatives [OF two len]
    using pair_pull_bound [of this 0 state "Suc 0"] that m(1) by simp_all
  ultimately show "\<exists>deriv. getDerivatives this state = Some deriv \<and>
              (0 \<le> mass b1 \<longrightarrow>
                 \<bar>deriv ! 2\<bar> \<le> mass b1 / SOFTENING powr 1.5 \<and>
                 \<bar>deriv ! 3\<bar> \<le> mass b1 / SOFTENING powr 1.5) \<and>
              (0 \<le> mass b0 \<longrightarrow>
                 \<bar>deriv ! 6\<bar> \<le> mass b0 / SOFTENING powr 1.5 \<and>
                 \<bar>deriv ! 7\<bar> \<le> mass b0 / SOFTENING powr 1.5)"
    by blast
next
  fix dx dy :: real
  show "0 < dx * dx + dy * dy + SOFTENING" by (rule denominator_pos)
  show "(dx * dx + dy * dy + SOFTENING) powr 1.5 \<noteq> 0"
    using denominator_pos(2) [of dx dy] by simp
next
  fix state :: StateVector and i j :: nat and acc :: "real \<times> real"
  assume "state ! (j * 4) = state ! (i * 4) \<and> state ! (j * 4 + 1) = state ! (i * 4 + 1)"
  then show "inner_body this state i j acc = acc"
    by (cases acc) (simp add: coincident_pair_adds_nothing)
qed

section \<open>Trails\<close>

lemma recordTrail_paused: "recordTrail True b = b"
  by (simp add: recordTrail_def)

lemma recordTrail_running:
  "trail (recordTrail False b) =
     (if trail b = [] \<or> mag (sub (pos b) (last (trail b))) > 0.05
      then (if length (trail b) + 1 > 150 then tl (trail b @ [pos b]) else trail b @ [pos b])
      else trail b)"
  by (simp add: recordTrail_def Let_def)

lemma recordTrail_length:
  "length (trail b) \<le> 150 \<Longrightarrow> length (trail (recordTrail p b)) \<le> 150"
  by (simp add: recordTrail_def Let_def)

lemma last_tl_snoc: "xs \<noteq> [] \<Longrightarrow> last (tl (xs @ [p])) = p"
  by (cases xs) simp_all

lemma integrate_body:
  assumes "integrate this c = Some nxt" and "i < length (bodies this)"
  shows "bodies nxt ! i =
           recordTrail (paused this)
             (writeBack (spec_rk4 this c (flatten (bodies this))) i (bodies this ! i))"
    and "length (bodies nxt) = length (bodies this)"
    and "paused nxt = paused this"
proof -
  have ne: "bodies this \<noteq> []" using assms(2) by auto
  from assms(1) have nxt: "nxt = this\<lparr>bodies := map (recordTrail (paused this))
                   (unflatten (spec_rk4 this c (flatten (bodies this))) (bodies this))\<rparr>"
    by (simp add: integrate_eq [OF ne])
  show "bodies nxt ! i =
           recordTrail (paused this)
             (writeBack (spec_rk4 this c (flatten (bodies this))) i (bodies this ! i))"
    using assms(2) by (simp add: nxt length_unflatten unflatten_nth)
  show "length (bodies nxt) = length (bodies this)" by (simp add: nxt length_unflatten)
  show "paused nxt = paused this" by (simp add: nxt)
qed

lemma integrate_total: "\<exists>nxt. integrate this c = Some nxt"
  by (cases "bodies this = []") (simp_all add: integrate_empty integrate_eq)


lemma steps_total: "\<exists>s. steps n c this = Some s"
proof (induction n arbitrary: this)
  case 0
  show ?case by simp
next
  case (Suc n)
  from integrate_total obtain nxt where "integrate this c = Some nxt" by blast
  with Suc [of nxt] show ?case by simp
qed

lemma integrate_trails_capped:
  assumes "integrate this c = Some nxt" and "\<forall>b \<in> set (bodies this). length (trail b) \<le> 150"
  shows "\<forall>b \<in> set (bodies nxt). length (trail b) \<le> 150"
proof
  fix b assume "b \<in> set (bodies nxt)"
  then obtain i where i: "i < length (bodies nxt)" and b: "b = bodies nxt ! i"
    by (auto simp add: in_set_conv_nth)
  show "length (trail b) \<le> 150"
  proof (cases "bodies this = []")
    case True
    with assms(1) have "nxt = this" by (simp add: integrate_empty)
    with True i show ?thesis by simp
  next
    case False
    then have "length (bodies this) \<noteq> 0" by simp
    have i': "i < length (bodies this)"
      using i assms(1) False by (auto simp add: integrate_eq length_unflatten)
    then have "length (trail (bodies this ! i)) \<le> 150" using assms(2) by simp
    then show ?thesis
      unfolding b integrate_body(1) [OF assms(1) i']
      by (intro recordTrail_length) (simp add: writeBack_fields)
  qed
qed

lemma steps_trails_capped:
  assumes "steps n c this = Some s" and "\<forall>b \<in> set (bodies this). length (trail b) \<le> 150"
  shows "\<forall>b \<in> set (bodies s). length (trail b) \<le> 150"
  using assms
proof (induction n arbitrary: this)
  case 0
  then show ?case by simp
next
  case (Suc n)
  from integrate_total obtain nxt where nxt: "integrate this c = Some nxt" by blast
  with Suc.prems(1) have "steps n c nxt = Some s" by simp
  moreover have "\<forall>b \<in> set (bodies nxt). length (trail b) \<le> 150"
    using integrate_trails_capped [OF nxt Suc.prems(2)] .
  ultimately show ?case by (rule Suc.IH)
qed

text \<open>
  Claim C8. Every call of \<^verbatim>\<open>integrate\<close> returns, and for every body: while paused
  the trail is untouched; while running, the new position is appended exactly when the
  trail is empty or the new position is farther than \<open>0.05\<close> from the last trail point,
  the appended point is then the last of the trail and is the body's new position, and
  the oldest point is dropped when the push makes the trail longer than \<open>150\<close>. A trail
  of at most \<open>150\<close> points stays so, after one call and after any number of calls; every
  body is created with an empty trail.
\<close>

theorem trail_bookkeeping:
  "\<exists>nxt. integrate this dt' = Some nxt \<and> length (bodies nxt) = length (bodies this) \<and>
     (\<forall>i<length (bodies this).
        (paused this \<longrightarrow> trail (bodies nxt ! i) = trail (bodies this ! i)) \<and>
        (\<not> paused this \<longrightarrow>
           (if trail (bodies this ! i) = [] \<or>
               mag (sub (pos (bodies nxt ! i)) (last (trail (bodies this ! i)))) > 0.05
            then trail (bodies nxt ! i) =
                   (if length (trail (bodies this ! i)) + 1 > 150
                    then tl (trail (bodies this ! i) @ [pos (bodies nxt ! i)])
                    else trail (bodies this ! i) @ [pos (bodies nxt ! i)]) \<and>
                 last (trail (bodies nxt ! i)) = pos (bodies nxt ! i)
            else trail (bodies nxt ! i) = trail (bodies this ! i))) \<and>
        (length (trail (bodies this ! i)) \<le> 150 \<longrightarrow> length (trail (bodies nxt ! i)) \<le> 150)) \<and>
     ((\<forall>b \<in> set (bodies this). length (trail b) \<le> 150) \<longrightarrow>
        (\<forall>n. \<exists>s. steps n dt' this = Some s \<and> (\<forall>b \<in> set (bodies s). length (trail b) \<le> 150)))"
proof -
  from integrate_total obtain nxt where nxt: "integrate this dt' = Some nxt" by blast
  have len: "length (bodies nxt) = length (bodies this)"
    using nxt by (cases "bodies this = []") (auto simp add: integrate_empty integrate_eq length_unflatten)
  have per_body: "(paused this \<longrightarrow> trail (bodies nxt ! i) = trail (bodies this ! i)) \<and>
        (\<not> paused this \<longrightarrow>
           (if trail (bodies this ! i) = [] \<or>
               mag (sub (pos (bodies nxt ! i)) (last (trail (bodies this ! i)))) > 0.05
            then trail (bodies nxt ! i) =
                   (if length (trail (bodies this ! i)) + 1 > 150
                    then tl (trail (bodies this ! i) @ [pos (bodies nxt ! i)])
                    else trail (bodies this ! i) @ [pos (bodies nxt ! i)]) \<and>
                 last (trail (bodies nxt ! i)) = pos (bodies nxt ! i)
            else trail (bodies nxt ! i) = trail (bodies this ! i))) \<and>
        (length (trail (bodies this ! i)) \<le> 150 \<longrightarrow> length (trail (bodies nxt ! i)) \<le> 150)"
    if i: "i < length (bodies this)" for i
  proof -
    define w where "w = writeBack (spec_rk4 this dt' (flatten (bodies this))) i (bodies this ! i)"
    have b: "bodies nxt ! i = recordTrail (paused this) w"
      unfolding w_def by (rule integrate_body(1) [OF nxt i])
    have tw: "trail w = trail (bodies this ! i)" by (simp add: w_def writeBack_fields)
    have pw: "pos (bodies nxt ! i) = pos w" by (simp add: b)
    show ?thesis
    proof (cases "paused this")
      case True
      then show ?thesis using tw by (simp add: b recordTrail_paused)
    next
      case False
      have "last (trail (recordTrail False w)) = pos w"
        if "trail w = [] \<or> mag (sub (pos w) (last (trail w))) > 0.05"
      proof (cases "trail w = []")
        case True
        then show ?thesis by (simp add: recordTrail_running)
      next
        case False
        with that show ?thesis by (simp add: recordTrail_running last_tl_snoc)
      qed
      then show ?thesis
        using False recordTrail_length [of w False] unfolding pw b
        by (simp add: recordTrail_running tw)
    qed
  qed
  have iter: "\<exists>s. steps n dt' this = Some s \<and> (\<forall>b \<in> set (bodies s). length (trail b) \<le> 150)"
    if "\<forall>b \<in> set (bodies this). length (trail b) \<le> 150" for n
    using steps_total [of n dt' this] steps_trails_capped [OF _ that] by blast
  from nxt len per_body iter show ?thesis by blast
qed


theorem trail_bookkeeping_witness:
  "\<exists>nxt. integrate (newSimulation solar) 0.015 = Some nxt \<and>
     (\<forall>i<3. trail (bodies nxt ! i) = [pos (bodies nxt ! i)])"
proof -
  let ?sim = "newSimulation solar"
  have three: "length (bodies ?sim) = 3" by (simp add: newSimulation_def solar_def)
  have running: "\<not> paused ?sim" by (simp add: newSimulation_def)
  have empty: "trail (bodies ?sim ! i) = []" if "i < 3" for i
  proof -
    from that have "i = 0 \<or> i = 1 \<or> i = 2" by arith
    then show ?thesis by (auto simp add: newSimulation_def solar_def)
  qed
  from trail_bookkeeping [of ?sim "0.015"] obtain nxt where
    nxt: "integrate ?sim 0.015 = Some nxt" and
    per: "\<forall>i<length (bodies ?sim). \<not> paused ?sim \<longrightarrow>
           (if trail (bodies ?sim ! i) = [] \<or>
               mag (sub (pos (bodies nxt ! i)) (last (trail (bodies ?sim ! i)))) > 0.05
            then trail (bodies nxt ! i) =
                   (if length (trail (bodies ?sim ! i)) + 1 > 150
                    then tl (trail (bodies ?sim ! i) @ [pos (bodies nxt ! i)])
                    else trail (bodies ?sim ! i) @ [pos (bodies nxt ! i)]) \<and>
                 last (trail (bodies nxt ! i)) = pos (bodies nxt ! i)
            else trail (bodies nxt ! i) = trail (bodies ?sim ! i))"
    by blast
  have "trail (bodies nxt ! i) = [pos (bodies nxt ! i)]" if "i < 3" for i
    using per [rule_format, of i] that three running empty [OF that] by simp
  with nxt show ?thesis by blast
qed

section \<open>Determinism\<close>

lemma same_masses:
  assumes "map mass (bodies a) = map mass (bodies b)"
  shows "length (bodies a) = length (bodies b)"
    and "j < length (bodies a) \<Longrightarrow> mass (bodies a ! j) = mass (bodies b ! j)"
proof -
  show len: "length (bodies a) = length (bodies b)"
    using assms by (rule map_eq_imp_length_eq)
  show "mass (bodies a ! j) = mass (bodies b ! j)" if "j < length (bodies a)"
    using that len nth_map [of j "bodies a" mass] nth_map [of j "bodies b" mass] assms
    by simp
qed

lemma spec_deriv_masses:
  assumes "map mass (bodies a) = map mass (bodies b)"
  shows "spec_deriv a st k = spec_deriv b st k"
proof -
  have f: "spec_f a st i j = spec_f b st i j" if "j \<in> {..<length (bodies a)} - {i}" for i j
    using that same_masses(2) [OF assms, of j] by (simp add: spec_f_def)
  have ax: "spec_ax a st i = spec_ax b st i" for i
    unfolding spec_ax_def same_masses(1) [OF assms, symmetric]
    by (rule sum.cong) (simp_all add: f)
  have ay: "spec_ay a st i = spec_ay b st i" for i
    unfolding spec_ay_def same_masses(1) [OF assms, symmetric]
    by (rule sum.cong) (simp_all add: f)
  show ?thesis unfolding spec_deriv_def ax ay by (rule refl)
qed

lemma spec_rk4_masses:
  assumes "map mass (bodies a) = map mass (bodies b)"
  shows "spec_rk4 a c s0 = spec_rk4 b c s0"
proof -
  have d: "spec_derivatives a st = spec_derivatives b st" for st
    by (simp add: spec_derivatives_def spec_deriv_masses [OF assms])
  have k1: "spec_k1 a s0 = spec_k1 b s0" by (simp add: spec_k1_def d)
  have k2: "spec_k2 a c s0 = spec_k2 b c s0" by (simp add: spec_k2_def d k1)
  have k3: "spec_k3 a c s0 = spec_k3 b c s0" by (simp add: spec_k3_def d k2)
  have k4: "spec_k4 a c s0 = spec_k4 b c s0" by (simp add: spec_k4_def d k3)
  show ?thesis by (simp add: spec_rk4_def k1 k2 k3 k4)
qed

lemma flatten_phys:
  assumes "map phys as = map phys bs"
  shows "flatten as = flatten bs"
proof -
  have "map (\<lambda>b. [x (pos b), y (pos b), x (vel b), y (vel b)]) as =
        map ((\<lambda>(m, p, v). [x p, y p, x v, y v]) \<circ> phys) as"
    by (simp add: phys_def)
  also have "\<dots> = map (\<lambda>(m, p, v). [x p, y p, x v, y v]) (map phys as)" by simp
  also have "\<dots> = map (\<lambda>(m, p, v). [x p, y p, x v, y v]) (map phys bs)" by (simp add: assms)
  also have "\<dots> = map ((\<lambda>(m, p, v). [x p, y p, x v, y v]) \<circ> phys) bs" by simp
  also have "\<dots> = map (\<lambda>b. [x (pos b), y (pos b), x (vel b), y (vel b)]) bs"
    by (simp add: phys_def)
  finally show ?thesis by (simp add: flatten_concat)
qed

lemma masses_of_phys: "map phys as = map phys bs \<Longrightarrow> map mass as = map mass bs"
proof -
  assume "map phys as = map phys bs"
  then have "map fst (map phys as) = map fst (map phys bs)" by simp
  then show ?thesis by (simp add: phys_def comp_def)
qed

lemma phys_written:
  "map phys (map (recordTrail p) (unflatten st bs)) =
     map (\<lambda>(i, m). (m, \<lparr>x = st ! (i * 4), y = st ! (i * 4 + 1)\<rparr>,
                       \<lparr>x = st ! (i * 4 + 2), y = st ! (i * 4 + 3)\<rparr>))
       (enumerate 0 (map mass bs))"
  by (intro nth_equalityI)
     (simp_all add: length_unflatten unflatten_nth nth_enumerate_eq phys_def writeBack_fields)

lemma integrate_phys:
  assumes "map phys (bodies a) = map phys (bodies b)"
    and "integrate a c = Some a'" and "integrate b c = Some b'"
  shows "map phys (bodies a') = map phys (bodies b')"
proof (cases "bodies a = []")
  case True
  with assms(1) have "bodies b = []" by simp
  with True assms show ?thesis by (simp add: integrate_empty)
next
  case False
  with assms(1) have nb: "bodies b \<noteq> []" by auto
  have m: "map mass (bodies a) = map mass (bodies b)" by (rule masses_of_phys [OF assms(1)])
  have st: "spec_rk4 a c (flatten (bodies a)) = spec_rk4 b c (flatten (bodies b))"
    by (simp add: spec_rk4_masses [OF m] flatten_phys [OF assms(1)])
  from assms(2) have a': "bodies a' = map (recordTrail (paused a))
      (unflatten (spec_rk4 a c (flatten (bodies a))) (bodies a))"
    by (auto simp add: integrate_eq [OF False])
  from assms(3) have b': "bodies b' = map (recordTrail (paused b))
      (unflatten (spec_rk4 b c (flatten (bodies b))) (bodies b))"
    by (auto simp add: integrate_eq [OF nb])
  show ?thesis unfolding a' b' phys_written st m by (rule refl)
qed

text \<open>
  Claim C9. The integrator is deterministic: two runs of any number of steps with the
  same step size, from simulations whose bodies have the same masses, positions and
  velocities in the same order, both return, with the same masses, positions and
  velocities. Nothing else of the two simulations (trails, colours, identifiers, the
  pause flag, the view) needs to agree.
\<close>

theorem integrator_deterministic:
  assumes "map phys (bodies a) = map phys (bodies b)"
  shows "\<exists>a' b'. steps n dt' a = Some a' \<and> steps n dt' b = Some b' \<and>
           map phys (bodies a') = map phys (bodies b')"
  using assms
proof (induction n arbitrary: a b)
  case 0
  then show ?case by simp
next
  case (Suc n)
  from integrate_total obtain a1 where a1: "integrate a dt' = Some a1" by blast
  from integrate_total obtain b1 where b1: "integrate b dt' = Some b1" by blast
  have "map phys (bodies a1) = map phys (bodies b1)"
    by (rule integrate_phys [OF Suc.prems a1 b1])
  from Suc.IH [OF this] show ?case by (simp add: a1 b1)
qed

theorem integrator_deterministic_witness:
  "\<exists>a' b'. steps 4 0.015 (newSimulation pythagorean) = Some a' \<and>
     steps 4 0.015 ((newSimulation (map (\<lambda>b. b\<lparr>color := ''white''\<rparr>) pythagorean))\<lparr>paused := True\<rparr>)
       = Some b' \<and>
     map phys (bodies a') = map phys (bodies b')"
proof (rule integrator_deterministic)
  show "map phys (bodies (newSimulation pythagorean)) =
        map phys (bodies ((newSimulation (map (\<lambda>b. b\<lparr>color := ''white''\<rparr>) pythagorean))\<lparr>paused := True\<rparr>))"
    by (simp add: newSimulation_def pythagorean_def phys_def)
qed

section \<open>Conservation of linear momentum\<close>

lemma antisymmetric_double_sum:
  fixes H :: "nat \<Rightarrow> nat \<Rightarrow> real"
  assumes "\<And>i j. H j i = - H i j"
  shows "(\<Sum>i<n. \<Sum>j<n. H i j) = 0"
proof -
  have "(\<Sum>i<n. \<Sum>j<n. H i j) = (\<Sum>j<n. \<Sum>i<n. H i j)" by (rule sum.swap)
  also have "\<dots> = (\<Sum>j<n. \<Sum>i<n. - H j i)" by (simp add: assms [symmetric])
  also have "\<dots> = - (\<Sum>j<n. \<Sum>i<n. H j i)" by (simp add: sum_negf)
  finally show ?thesis by simp
qed

lemma mass_weighted_factor:
  "mass (bodies this ! i) * spec_f this st i j = mass (bodies this ! j) * spec_f this st j i"
  unfolding spec_f_def spec_distSq_sym [of st j i] by simp

lemma weighted_ax_sum: "(\<Sum>i<length (bodies this). mass (bodies this ! i) * spec_ax this st i) = 0"
proof -
  let ?H = "\<lambda>i j. if j = i then 0
                  else mass (bodies this ! i) * spec_f this st i j * spec_dx st i j"
  have anti: "?H j i = - ?H i j" for i j
    using mass_weighted_factor [of this i st j] by (simp add: spec_dx_antisym [of st j i])
  have "mass (bodies this ! i) * spec_ax this st i = (\<Sum>j<length (bodies this). ?H i j)" for i
    unfolding spec_ax_def sum_skip [symmetric] sum_distrib_left
    by (rule sum.cong) (simp_all add: mult.assoc)
  then show ?thesis by (simp add: antisymmetric_double_sum [of ?H, OF anti])
qed

lemma weighted_ay_sum: "(\<Sum>i<length (bodies this). mass (bodies this ! i) * spec_ay this st i) = 0"
proof -
  let ?H = "\<lambda>i j. if j = i then 0
                  else mass (bodies this ! i) * spec_f this st i j * spec_dy st i j"
  have anti: "?H j i = - ?H i j" for i j
    using mass_weighted_factor [of this i st j] by (simp add: spec_dy_antisym [of st j i])
  have "mass (bodies this ! i) * spec_ay this st i = (\<Sum>j<length (bodies this). ?H i j)" for i
    unfolding spec_ay_def sum_skip [symmetric] sum_distrib_left
    by (rule sum.cong) (simp_all add: mult.assoc)
  then show ?thesis by (simp add: antisymmetric_double_sum [of ?H, OF anti])
qed


lemma weighted_combination:
  fixes m v a b c d :: "nat \<Rightarrow> real"
  assumes "(\<Sum>i<n. m i * a i) = 0" and "(\<Sum>i<n. m i * b i) = 0"
    and "(\<Sum>i<n. m i * c i) = 0" and "(\<Sum>i<n. m i * d i) = 0"
  shows "(\<Sum>i<n. m i * (v i + h * (a i + 2 * b i + 2 * c i + d i))) = (\<Sum>i<n. m i * v i)"
proof -
  have "(\<Sum>i<n. m i * (v i + h * (a i + 2 * b i + 2 * c i + d i))) =
        (\<Sum>i<n. m i * v i + (h * (m i * a i) + (2 * h) * (m i * b i) +
                  (2 * h) * (m i * c i) + h * (m i * d i)))"
    by (rule sum.cong) (simp_all add: algebra_simps)
  also have "\<dots> = (\<Sum>i<n. m i * v i) + (h * (\<Sum>i<n. m i * a i) + (2 * h) * (\<Sum>i<n. m i * b i) +
                  (2 * h) * (\<Sum>i<n. m i * c i) + h * (\<Sum>i<n. m i * d i))"
    unfolding sum.distrib sum_distrib_left by (rule refl)
  finally show ?thesis by (simp add: assms)
qed

lemma momentum_x_nth: "momentum_x bs = (\<Sum>i<length bs. mass (bs ! i) * x (vel (bs ! i)))"
  unfolding momentum_x_def sum_list_sum_nth atLeast0LessThan
  by (rule sum.cong) simp_all

lemma momentum_y_nth: "momentum_y bs = (\<Sum>i<length bs. mass (bs ! i) * y (vel (bs ! i)))"
  unfolding momentum_y_def sum_list_sum_nth atLeast0LessThan
  by (rule sum.cong) simp_all

lemma stage_accel:
  assumes "length st = 4 * length (bodies this)" and "i < length (bodies this)"
  shows "spec_derivatives this st ! (i * 4 + 2) = spec_ax this st i"
    and "spec_derivatives this st ! (i * 4 + 3) = spec_ay this st i"
proof -
  have "i * 4 + 2 < length st" "i * 4 + 3 < length st" using assms by simp_all
  then show "spec_derivatives this st ! (i * 4 + 2) = spec_ax this st i"
    and "spec_derivatives this st ! (i * 4 + 3) = spec_ay this st i"
    using spec_deriv_row(3,4) [of this st i] by (simp_all add: spec_derivatives_nth)
qed

lemma weighted_stage:
  assumes "length st = 4 * length (bodies this)"
  shows "(\<Sum>i<length (bodies this). mass (bodies this ! i) * spec_derivatives this st ! (i * 4 + 2)) = 0"
    and "(\<Sum>i<length (bodies this). mass (bodies this ! i) * spec_derivatives this st ! (i * 4 + 3)) = 0"
proof -
  have "(\<Sum>i<length (bodies this). mass (bodies this ! i) * spec_derivatives this st ! (i * 4 + 2)) =
        (\<Sum>i<length (bodies this). mass (bodies this ! i) * spec_ax this st i)"
  proof (rule sum.cong [OF refl])
    fix i assume "i \<in> {..<length (bodies this)}"
    then have "i < length (bodies this)" by simp
    from stage_accel(1) [OF assms this]
    show "mass (bodies this ! i) * spec_derivatives this st ! (i * 4 + 2) =
          mass (bodies this ! i) * spec_ax this st i" by simp
  qed
  then show "(\<Sum>i<length (bodies this). mass (bodies this ! i) * spec_derivatives this st ! (i * 4 + 2)) = 0"
    by (simp add: weighted_ax_sum)
  have "(\<Sum>i<length (bodies this). mass (bodies this ! i) * spec_derivatives this st ! (i * 4 + 3)) =
        (\<Sum>i<length (bodies this). mass (bodies this ! i) * spec_ay this st i)"
  proof (rule sum.cong [OF refl])
    fix i assume "i \<in> {..<length (bodies this)}"
    then have "i < length (bodies this)" by simp
    from stage_accel(2) [OF assms this]
    show "mass (bodies this ! i) * spec_derivatives this st ! (i * 4 + 3) =
          mass (bodies this ! i) * spec_ay this st i" by simp
  qed
  then show "(\<Sum>i<length (bodies this). mass (bodies this ! i) * spec_derivatives this st ! (i * 4 + 3)) = 0"
    by (simp add: weighted_ay_sum)
qed

lemma spec_rk4_nth:
  assumes "k < length s0"
  shows "spec_rk4 this c s0 ! k =
           s0 ! k + c / 6 * (spec_k1 this s0 ! k + 2 * spec_k2 this c s0 ! k +
                             2 * spec_k3 this c s0 ! k + spec_k4 this c s0 ! k)"
  using assms
  by (simp add: spec_rk4_def vplus_nth vscale_nth length_vplus length_vscale length_spec_ks)

lemma weighted_ks:
  assumes "length s0 = 4 * length (bodies this)" and "r = 2 \<or> r = 3"
  shows "(\<Sum>i<length (bodies this). mass (bodies this ! i) * spec_k1 this s0 ! (i * 4 + r)) = 0"
    and "(\<Sum>i<length (bodies this). mass (bodies this ! i) * spec_k2 this c s0 ! (i * 4 + r)) = 0"
    and "(\<Sum>i<length (bodies this). mass (bodies this ! i) * spec_k3 this c s0 ! (i * 4 + r)) = 0"
    and "(\<Sum>i<length (bodies this). mass (bodies this ! i) * spec_k4 this c s0 ! (i * 4 + r)) = 0"
  using assms unfolding spec_k1_def spec_k2_def spec_k3_def spec_k4_def
  by (auto intro!: weighted_stage
      simp add: length_vplus length_vscale length_spec_derivatives)


lemma weighted_rk4:
  assumes len: "length s0 = 4 * length (bodies this)" and r: "r = 2 \<or> r = 3"
  shows "(\<Sum>i<length (bodies this). mass (bodies this ! i) * spec_rk4 this c s0 ! (i * 4 + r)) =
         (\<Sum>i<length (bodies this). mass (bodies this ! i) * s0 ! (i * 4 + r))"
proof -
  have "(\<Sum>i<length (bodies this). mass (bodies this ! i) * spec_rk4 this c s0 ! (i * 4 + r)) =
        (\<Sum>i<length (bodies this). mass (bodies this ! i) *
           (s0 ! (i * 4 + r) + c / 6 *
              (spec_k1 this s0 ! (i * 4 + r) + 2 * spec_k2 this c s0 ! (i * 4 + r) +
               2 * spec_k3 this c s0 ! (i * 4 + r) + spec_k4 this c s0 ! (i * 4 + r))))"
  proof (rule sum.cong [OF refl])
    fix i assume "i \<in> {..<length (bodies this)}"
    then have "i * 4 + r < length s0" using len r by auto
    then show "mass (bodies this ! i) * spec_rk4 this c s0 ! (i * 4 + r) =
          mass (bodies this ! i) *
           (s0 ! (i * 4 + r) + c / 6 *
              (spec_k1 this s0 ! (i * 4 + r) + 2 * spec_k2 this c s0 ! (i * 4 + r) +
               2 * spec_k3 this c s0 ! (i * 4 + r) + spec_k4 this c s0 ! (i * 4 + r)))"
      by (simp only: spec_rk4_nth)
  qed
  also have "\<dots> = (\<Sum>i<length (bodies this). mass (bodies this ! i) * s0 ! (i * 4 + r))"
    by (rule weighted_combination) (rule weighted_ks [OF len r])+
  finally show ?thesis .
qed

lemma momentum_written:
  assumes "length st = 4 * length bs"
  shows "momentum_x (map (recordTrail p) (unflatten st bs)) =
           (\<Sum>i<length bs. mass (bs ! i) * st ! (i * 4 + 2))"
    and "momentum_y (map (recordTrail p) (unflatten st bs)) =
           (\<Sum>i<length bs. mass (bs ! i) * st ! (i * 4 + 3))"
  unfolding momentum_x_nth momentum_y_nth
  by (simp_all add: length_unflatten unflatten_nth writeBack_fields)

lemma momentum_flatten:
  "momentum_x bs = (\<Sum>i<length bs. mass (bs ! i) * flatten bs ! (i * 4 + 2))"
  "momentum_y bs = (\<Sum>i<length bs. mass (bs ! i) * flatten bs ! (i * 4 + 3))"
proof -
  have row: "x (vel (bs ! i)) = flatten bs ! (i * 4 + 2) \<and> y (vel (bs ! i)) = flatten bs ! (i * 4 + 3)"
    if "i \<in> {..<length bs}" for i
    using that flatten_nth [of i bs] by simp
  show "momentum_x bs = (\<Sum>i<length bs. mass (bs ! i) * flatten bs ! (i * 4 + 2))"
    unfolding momentum_x_nth by (rule sum.cong [OF refl]) (simp only: row)
  show "momentum_y bs = (\<Sum>i<length bs. mass (bs ! i) * flatten bs ! (i * 4 + 3))"
    unfolding momentum_y_nth by (rule sum.cong [OF refl]) (simp only: row)
qed

text \<open>
  Claim C10. In exact real arithmetic, one call of \<^verbatim>\<open>integrate\<close> conserves total
  linear momentum: the sum over all bodies of mass times velocity is the same before and
  after, in both coordinates, for every body list and step size. The reason is that the
  mass-weighted accelerations returned by \<^verbatim>\<open>getDerivatives\<close> sum to zero for every
  state with four components per body, so at each of the four stages, and the update is
  a linear combination of the stages.
\<close>

theorem momentum_conserved:
  "(\<exists>nxt. integrate this dt' = Some nxt \<and>
      momentum_x (bodies nxt) = momentum_x (bodies this) \<and>
      momentum_y (bodies nxt) = momentum_y (bodies this)) \<and>
   (\<forall>state. length state = 4 * length (bodies this) \<longrightarrow>
      (\<exists>k. getDerivatives this state = Some k \<and>
         (\<Sum>i<length (bodies this). mass (bodies this ! i) * k ! (i * 4 + 2)) = 0 \<and>
         (\<Sum>i<length (bodies this). mass (bodies this ! i) * k ! (i * 4 + 3)) = 0))"
proof (intro conjI allI impI)
  show "\<exists>nxt. integrate this dt' = Some nxt \<and>
      momentum_x (bodies nxt) = momentum_x (bodies this) \<and>
      momentum_y (bodies nxt) = momentum_y (bodies this)"
  proof (cases "bodies this = []")
    case True
    then show ?thesis by (simp add: integrate_empty)
  next
    case False
    let ?s0 = "flatten (bodies this)"
    let ?sF = "spec_rk4 this dt' ?s0"
    have len: "length ?s0 = 4 * length (bodies this)" by (rule length_flatten)
    have lenF: "length ?sF = 4 * length (bodies this)" by (simp add: length_spec_rk4 len)
    have "momentum_x (map (recordTrail (paused this)) (unflatten ?sF (bodies this))) =
          momentum_x (bodies this)"
      unfolding momentum_written(1) [OF lenF] momentum_flatten(1) [of "bodies this"]
      by (rule weighted_rk4 [OF len]) simp
    moreover have "momentum_y (map (recordTrail (paused this)) (unflatten ?sF (bodies this))) =
          momentum_y (bodies this)"
      unfolding momentum_written(2) [OF lenF] momentum_flatten(2) [of "bodies this"]
      by (rule weighted_rk4 [OF len]) simp
    ultimately show ?thesis by (simp add: integrate_eq [OF False])
  qed
next
  fix state :: StateVector assume len: "length state = 4 * length (bodies this)"
  from getDerivatives_spec [OF len] weighted_stage [OF len]
  show "\<exists>k. getDerivatives this state = Some k \<and>
         (\<Sum>i<length (bodies this). mass (bodies this ! i) * k ! (i * 4 + 2)) = 0 \<and>
         (\<Sum>i<length (bodies this). mass (bodies this ! i) * k ! (i * 4 + 3)) = 0"
    by blast
qed

theorem momentum_conserved_witness:
  "length (flatten solar) = 4 * length (bodies (newSimulation solar)) \<and>
   (\<exists>nxt. integrate (newSimulation solar) 0.015 = Some nxt \<and>
     momentum_x (bodies nxt) = 0 \<and> momentum_y (bodies nxt) = 4.6) \<and>
   (\<exists>k. getDerivatives (newSimulation solar) (flatten solar) = Some k \<and>
      10 * k ! 2 + 1 * k ! 6 + 2 * k ! 10 = 0)"
proof -
  let ?sim = "newSimulation solar"
  have h: "length (flatten solar) = 4 * length (bodies ?sim)"
    by (simp add: length_flatten newSimulation_def)
  have three: "{..<length (bodies ?sim)} = {0, 1, 2}"
    by (auto simp add: newSimulation_def solar_def)
  have start: "momentum_x (bodies ?sim) = 0" "momentum_y (bodies ?sim) = 4.6"
    by (simp_all add: momentum_x_def momentum_y_def newSimulation_def solar_def)
  from momentum_conserved [of ?sim "0.015"] h obtain nxt k where
    nxt: "integrate ?sim 0.015 = Some nxt" "momentum_x (bodies nxt) = momentum_x (bodies ?sim)"
      "momentum_y (bodies nxt) = momentum_y (bodies ?sim)"
    and k: "getDerivatives ?sim (flatten solar) = Some k"
      "(\<Sum>i<length (bodies ?sim). mass (bodies ?sim ! i) * k ! (i * 4 + 2)) = 0"
    by blast
  from k(2) have "10 * k ! 2 + 1 * k ! 6 + 2 * k ! 10 = 0"
    unfolding three by (simp add: newSimulation_def solar_def numeral_2_eq_2)
  with nxt k(1) start h show ?thesis by auto
qed

section \<open>Rounding\<close>

lemma pow2_powr: "pow2 e = 2 powr (real_of_int e)"
  by (simp add: pow2_def powr_real_of_int inverse_eq_divide)

lemma pow2_pos [simp]: "0 < pow2 e"
  by (simp add: pow2_powr)

lemma pow2_nonneg [simp]: "0 \<le> pow2 e"
  using pow2_pos [of e] by linarith

lemma pow2_not_le [simp]: "\<not> pow2 e \<le> 0"
  by (simp add: not_le)



lemma pow2_nat: "0 \<le> e \<Longrightarrow> pow2 e = of_int (2 ^ nat e)"
  by (simp add: pow2_def)




lemma expo_normal:
  assumes "pow2 e \<le> \<bar>a\<bar>" and "\<bar>a\<bar> < pow2 (e + 1)" and "- 1022 \<le> e"
  shows "expo a = e"
proof -
  have pos: "0 < \<bar>a\<bar>" using assms(1) pow2_pos [of e] by linarith
  have "\<lfloor>log 2 \<bar>a\<bar>\<rfloor> = e"
    using assms(1,2) pos by (simp add: floor_log_eq_powr_iff pow2_powr)
  then show ?thesis using assms(3) by (simp add: expo_def)
qed


lemma rnd_eval:
  assumes "pow2 e \<le> \<bar>a\<bar>" and "\<bar>a\<bar> < pow2 (e + 1)" and "- 1022 \<le> e"
    and "half_even (a / pow2 (e - 52)) = n"
    and "\<bar>of_int n * pow2 (e - 52)\<bar> < pow2 1024"
  shows "rnd a = Fin (of_int n * pow2 (e - 52))"
proof -
  have "a \<noteq> 0" using assms(1) pow2_pos [of e] by auto
  then show ?thesis
    using assms(4,5) by (simp add: rnd_def Let_def expo_normal [OF assms(1,2,3)])
qed

lemma rnd_0015: "rnd 0.015 = Fin (1080863910568919 / 2 ^ 56)"
proof -
  have "rnd 0.015 = Fin (of_int 8646911284551352 * pow2 (- 7 - 52))"
    by (rule rnd_eval) (simp_all add: pow2_def half_even_def Let_def)
  then show ?thesis by (simp add: pow2_def)
qed


lemma single_derivatives_d:
  assumes "length state = 4"
  shows "getDerivatives_d [m] state = [state ! 2, state ! 3, Fin 0, Fin 0]"
proof -
  from assms obtain a b c d where st: "state = [a, b, c, d]"
    by (cases state; simp; (rename_tac ys, case_tac ys; simp)+)
  show ?thesis
    by (simp add: st getDerivatives_d_def outer_body_d_def inner_body_d_def rd_def Let_def)
qed


lemma rnd_zero [simp]: "rnd 0 = Fin 0"
  by (simp add: rnd_def)

lemma fadd_zero_right: "is_double a \<Longrightarrow> fadd a (Fin 0) = a"
  by (cases a) simp_all

lemma fmul_zero_left [simp]: "fmul (Fin 0) (Fin b) = Fin 0"
  by simp

lemma fmul_zero_right [simp]: "fmul (Fin a) (Fin 0) = Fin 0"
  by simp

lemma single_advance_d:
  assumes "is_double vx" and "is_double vy" and "fdiv (Fin d) (Fin 6) = Fin h"
  shows "advance_d [m] (Fin d) [px, py, vx, vy] =
           [fadd px (fmul (fdiv (Fin d) (Fin 6)) (rk_sum vx)),
            fadd py (fmul (fdiv (Fin d) (Fin 6)) (rk_sum vy)), vx, vy]"
proof -
  have d: "getDerivatives_d [m] [a, b, vx, vy] = [vx, vy, Fin 0, Fin 0]" for a b
    using single_derivatives_d [of "[a, b, vx, vy]" m] by simp
  have e: "enumerate 0 [px, py, vx, vy] = [(0, px), (1, py), (2, vx), (3, vy)]"
    by (simp add: enumerate_eq_zip upt_rec)
  have upt4: "[0..<4] = [0, 1, 2, 3]" by (simp add: upt_rec)
  have keep: "fadd vx (Fin 0) = vx" "fadd vy (Fin 0) = vy"
    using assms(1,2) by (simp_all add: fadd_zero_right)
  have r: "rd [vx, vy, Fin 0, Fin 0] 0 = vx" "rd [vx, vy, Fin 0, Fin 0] 1 = vy"
    "rd [vx, vy, Fin 0, Fin 0] 2 = Fin 0" "rd [vx, vy, Fin 0, Fin 0] 3 = Fin 0"
    by (simp_all add: rd_def)
  have zero: "fmul (fdiv (Fin d) (Fin 6)) (Fin 0) = Fin 0"
    unfolding assms(3) by simp
  have s2: "map (\<lambda>(i, v). fadd v (fmul (fmul (rd [vx, vy, Fin 0, Fin 0] i) (Fin d)) (Fin 0.5)))
              (enumerate 0 [px, py, vx, vy]) =
            [fadd px (fmul (fmul vx (Fin d)) (Fin 0.5)), fadd py (fmul (fmul vy (Fin d)) (Fin 0.5)),
             vx, vy]"
    unfolding e by (simp add: rd_def keep)
  have s4: "map (\<lambda>(i, v). fadd v (fmul (rd [vx, vy, Fin 0, Fin 0] i) (Fin d)))
              (enumerate 0 [px, py, vx, vy]) =
            [fadd px (fmul vx (Fin d)), fadd py (fmul vy (Fin d)), vx, vy]"
    unfolding e by (simp add: rd_def keep)
  have c: "combine_d (Fin d) [vx, vy, Fin 0, Fin 0] [vx, vy, Fin 0, Fin 0] [vx, vy, Fin 0, Fin 0]
             [vx, vy, Fin 0, Fin 0] [px, py, vx, vy] =
           [fadd px (fmul (fdiv (Fin d) (Fin 6)) (rk_sum vx)),
            fadd py (fmul (fdiv (Fin d) (Fin 6)) (rk_sum vy)), vx, vy]"
    unfolding combine_d_def
    by (simp add: upt4 rd_def rk_sum_def zero keep del: fdiv.simps)
  show ?thesis
    unfolding advance_d_def Let_def d s2 s4 c by (rule refl)
qed

lemma rnd_18: "rnd (1.8) = Fin (8106479329266893 / 2 ^ 52)"
proof -
  have "rnd (1.8) = Fin (of_int 8106479329266893 * pow2 (0 - 52))"
    by (rule rnd_eval) (simp_all add: pow2_def half_even_def Let_def)
  then show ?thesis by (simp add: pow2_def)
qed

lemma rnd_vy: "rnd (8106479329266893 / 2 ^ 52) = Fin (8106479329266893 / 2 ^ 52)"
proof -
  have "rnd (8106479329266893 / 2 ^ 52) = Fin (of_int 8106479329266893 * pow2 (0 - 52))"
    by (rule rnd_eval) (simp_all add: pow2_def half_even_def Let_def)
  then show ?thesis by (simp add: pow2_def)
qed

lemma rnd_dt: "rnd (1080863910568919 / 2 ^ 56) = Fin (1080863910568919 / 2 ^ 56)"
proof -
  have "rnd (1080863910568919 / 2 ^ 56) = Fin (of_int 8646911284551352 * pow2 (- 7 - 52))"
    by (rule rnd_eval) (simp_all add: pow2_def half_even_def Let_def)
  then show ?thesis by (simp add: pow2_def)
qed

lemma rnd_2vy: "rnd (2 * (8106479329266893 / 2 ^ 52)) = Fin (8106479329266893 / 2 ^ 51)"
proof -
  have "rnd (2 * (8106479329266893 / 2 ^ 52)) = Fin (of_int 8106479329266893 * pow2 (1 - 52))"
    by (rule rnd_eval) (simp_all add: pow2_def half_even_def Let_def)
  then show ?thesis by (simp add: pow2_def)
qed

lemma rnd_3vy: "rnd (8106479329266893 / 2 ^ 52 + 8106479329266893 / 2 ^ 51) = Fin (3039929748475085 / 2 ^ 49)"
proof -
  have "rnd (8106479329266893 / 2 ^ 52 + 8106479329266893 / 2 ^ 51) = Fin (of_int 6079859496950170 * pow2 (2 - 52))"
    by (rule rnd_eval) (simp_all add: pow2_def half_even_def Let_def)
  then show ?thesis by (simp add: pow2_def)
qed

lemma rnd_5vy: "rnd (3039929748475085 / 2 ^ 49 + 8106479329266893 / 2 ^ 51) = Fin (9)"
proof -
  have "rnd (3039929748475085 / 2 ^ 49 + 8106479329266893 / 2 ^ 51) = Fin (of_int 5066549580791808 * pow2 (3 - 52))"
    by (rule rnd_eval) (simp_all add: pow2_def half_even_def Let_def)
  then show ?thesis by (simp add: pow2_def)
qed

lemma rnd_6vy: "rnd (9 + 8106479329266893 / 2 ^ 52) = Fin (3039929748475085 / 2 ^ 48)"
proof -
  have "rnd (9 + 8106479329266893 / 2 ^ 52) = Fin (of_int 6079859496950170 * pow2 (3 - 52))"
    by (rule rnd_eval) (simp_all add: pow2_def half_even_def Let_def)
  then show ?thesis by (simp add: pow2_def)
qed

lemma rnd_h: "rnd (1080863910568919 / 2 ^ 56 / 6) = Fin (5764607523034235 / 2 ^ 61)"
proof -
  have "rnd (1080863910568919 / 2 ^ 56 / 6) = Fin (of_int 5764607523034235 * pow2 (- 9 - 52))"
    by (rule rnd_eval) (simp_all add: pow2_def half_even_def Let_def)
  then show ?thesis by (simp add: pow2_def)
qed

lemma rnd_hc: "rnd (5764607523034235 / 2 ^ 61 * (3039929748475085 / 2 ^ 48)) = Fin (3891110078048109 / 2 ^ 57)"
proof -
  have "rnd (5764607523034235 / 2 ^ 61 * (3039929748475085 / 2 ^ 48)) = Fin (of_int 7782220156096218 * pow2 (- 6 - 52))"
    by (rule rnd_eval) (simp_all add: pow2_def half_even_def Let_def)
  then show ?thesis by (simp add: pow2_def)
qed

lemma rnd_res: "rnd (0 + 3891110078048109 / 2 ^ 57) = Fin (3891110078048109 / 2 ^ 57)"
proof -
  have "rnd (0 + 3891110078048109 / 2 ^ 57) = Fin (of_int 7782220156096218 * pow2 (- 6 - 52))"
    by (rule rnd_eval) (simp_all add: pow2_def half_even_def Let_def)
  then show ?thesis by (simp add: pow2_def)
qed

lemma rnd_dtvy: "rnd (1080863910568919 / 2 ^ 56 * (8106479329266893 / 2 ^ 52)) = Fin (7782220156096217 / 2 ^ 58)"
proof -
  have "rnd (1080863910568919 / 2 ^ 56 * (8106479329266893 / 2 ^ 52)) = Fin (of_int 7782220156096217 * pow2 (- 6 - 52))"
    by (rule rnd_eval) (simp_all add: pow2_def half_even_def Let_def)
  then show ?thesis by (simp add: pow2_def)
qed

lemma rnd_line: "rnd (0 + 7782220156096217 / 2 ^ 58) = Fin (7782220156096217 / 2 ^ 58)"
proof -
  have "rnd (0 + 7782220156096217 / 2 ^ 58) = Fin (of_int 7782220156096217 * pow2 (- 6 - 52))"
    by (rule rnd_eval) (simp_all add: pow2_def half_even_def Let_def)
  then show ?thesis by (simp add: pow2_def)
qed

lemma rnd_3: "rnd (3) = Fin (3)"
proof -
  have "rnd (3) = Fin (of_int 6755399441055744 * pow2 (1 - 52))"
    by (rule rnd_eval) (simp_all add: pow2_def half_even_def Let_def)
  then show ?thesis by (simp add: pow2_def)
qed




















lemma fdiv_6: "fdiv (Fin a) (Fin 6) = rnd (a / 6)"
  by simp

lemma planet_rk_sum:
  "rk_sum (Fin (8106479329266893 / 2 ^ 52)) = Fin (3039929748475085 / 2 ^ 48)"
  unfolding rk_sum_def fmul.simps(1) rnd_2vy fadd.simps(1) rnd_3vy rnd_5vy rnd_6vy
  by (rule refl)

lemma planet_step_y:
  "fadd (Fin 0) (fmul (fdiv (Fin (1080863910568919 / 2 ^ 56)) (Fin 6))
      (rk_sum (Fin (8106479329266893 / 2 ^ 52)))) = Fin (3891110078048109 / 2 ^ 57)"
  unfolding planet_rk_sum fdiv_6 rnd_h fmul.simps(1) rnd_hc fadd.simps(1) rnd_res
  by (rule refl)

lemma planet_line_y:
  "fadd (Fin 0) (fmul (Fin (1080863910568919 / 2 ^ 56)) (Fin (8106479329266893 / 2 ^ 52))) =
     Fin (7782220156096217 / 2 ^ 58)"
  unfolding fmul.simps(1) rnd_dtvy fadd.simps(1) rnd_line by (rule refl)

lemma planet_advance_y:
  "advance_d [Fin 1] (rnd 0.015) [Fin 3, Fin 0, Fin 0, rnd 1.8] ! 1 = Fin (3891110078048109 / 2 ^ 57)"
proof -
  have v: "is_double (Fin 0)" "is_double (Fin (8106479329266893 / 2 ^ 52))"
    unfolding is_double.simps rnd_vy by simp_all
  have h: "fdiv (Fin (1080863910568919 / 2 ^ 56)) (Fin 6) = Fin (5764607523034235 / 2 ^ 61)"
    unfolding fdiv_6 rnd_h by (rule refl)
  show ?thesis
    unfolding rnd_0015 rnd_18 single_advance_d [OF v h] nth_Cons_Suc One_nat_def nth_Cons_0
      planet_step_y
    by (rule refl)
qed







section \<open>One body: exact and double arithmetic\<close>

text \<open>
  Claim C5, as amended. With a single body the evaluator gives zero acceleration for
  every state, in exact and in double arithmetic. In exact arithmetic one call of
  \<^verbatim>\<open>integrate\<close> moves the body in a straight line: the new position is the old one
  plus the step size times the velocity, and the velocity is unchanged. In double
  arithmetic, when \<open>dt / 6\<close> is finite, the velocity is unchanged too, and each new
  position component is \<open>pos + (dt / 6) \<cdot> (((v + 2 v) + 2 v) + v)\<close> with every operation
  rounded.
\<close>

theorem single_body_straight_line:
  assumes "bodies this = [b]"
  shows "(\<forall>state. length state = 4 \<longrightarrow>
            getDerivatives this state = Some [state ! 2, state ! 3, 0, 0]) \<and>
         (\<exists>next b'. integrate this dt' = Some next \<and> bodies next = [b'] \<and>
            x (pos b') = x (pos b) + dt' * x (vel b) \<and>
            y (pos b') = y (pos b) + dt' * y (vel b) \<and>
            vel b' = vel b \<and> mass b' = mass b) \<and>
         (\<forall>m state. length state = 4 \<longrightarrow>
            getDerivatives_d [m] state = [state ! 2, state ! 3, Fin 0, Fin 0]) \<and>
         (\<forall>m d h px py vx vy.
            is_double vx \<and> is_double vy \<and> fdiv (Fin d) (Fin 6) = Fin h \<longrightarrow>
            advance_d [m] (Fin d) [px, py, vx, vy] =
              [fadd px (fmul (Fin h)
                 (fadd (fadd (fadd vx (fmul (Fin 2) vx)) (fmul (Fin 2) vx)) vx)),
               fadd py (fmul (Fin h)
                 (fadd (fadd (fadd vy (fmul (Fin 2) vy)) (fmul (Fin 2) vy)) vy)),
               vx, vy])"
proof (intro conjI allI impI)
  show "\<exists>next b'. integrate this dt' = Some next \<and> bodies next = [b'] \<and>
            x (pos b') = x (pos b) + dt' * x (vel b) \<and>
            y (pos b') = y (pos b) + dt' * y (vel b) \<and>
            vel b' = vel b \<and> mass b' = mass b"
    using single_body_exact [OF assms, of dt'] by blast
next
  fix state :: StateVector assume "length state = 4"
  then show "getDerivatives this state = Some [state ! 2, state ! 3, 0, 0]"
    using single_body_exact [OF assms, of dt'] by blast
next
  fix m and state :: "double list" assume "length state = 4"
  then show "getDerivatives_d [m] state = [state ! 2, state ! 3, Fin 0, Fin 0]"
    by (rule single_derivatives_d)
next
  fix m d h px py vx vy
  assume "is_double vx \<and> is_double vy \<and> fdiv (Fin d) (Fin 6) = Fin h"
  then have v: "is_double vx" "is_double vy" and h: "fdiv (Fin d) (Fin 6) = Fin h"
    by simp_all
  show "advance_d [m] (Fin d) [px, py, vx, vy] =
              [fadd px (fmul (Fin h)
                 (fadd (fadd (fadd vx (fmul (Fin 2) vx)) (fmul (Fin 2) vx)) vx)),
               fadd py (fmul (Fin h)
                 (fadd (fadd (fadd vy (fmul (Fin 2) vy)) (fmul (Fin 2) vy)) vy)),
               vx, vy]"
    unfolding single_advance_d [OF v h] h rk_sum_def by (rule refl)
qed

theorem single_body_straight_line_witness:
  "bodies (newSimulation [planet]) = [planet] \<and>
   getDerivatives (newSimulation [planet]) [3, 0, 0, 1.8] = Some [0, 1.8, 0, 0] \<and>
   (\<exists>next b'. integrate (newSimulation [planet]) 0.015 = Some next \<and> bodies next = [b'] \<and>
      x (pos b') = 3 \<and> y (pos b') = 0.027 \<and> vel b' = \<lparr>x = 0, y = 1.8\<rparr>) \<and>
   is_double (Fin 0) \<and> is_double (rnd 1.8) \<and>
   fdiv (rnd 0.015) (Fin 6) = Fin (5764607523034235 / 2 ^ 61) \<and>
   advance_d [Fin 1] (rnd 0.015) [Fin 3, Fin 0, Fin 0, rnd 1.8] ! 2 = Fin 0 \<and>
   advance_d [Fin 1] (rnd 0.015) [Fin 3, Fin 0, Fin 0, rnd 1.8] ! 3 = rnd 1.8"
proof -
  have h: "bodies (newSimulation [planet]) = [planet]" by (simp add: newSimulation_def)
  note inst = single_body_straight_line [OF h, of "0.015"]
  have "length [3, 0, 0, 1.8 :: real] = 4" by simp
  with inst
  have d: "getDerivatives (newSimulation [planet]) [3, 0, 0, 1.8] =
             Some [[3, 0, 0, 1.8] ! 2, [3, 0, 0, 1.8] ! 3, 0, 0]"
    by blast
  from inst obtain nxt b' where n: "integrate (newSimulation [planet]) 0.015 = Some nxt"
    "bodies nxt = [b']" "x (pos b') = x (pos planet) + 0.015 * x (vel planet)"
    "y (pos b') = y (pos planet) + 0.015 * y (vel planet)" "vel b' = vel planet"
    by blast
  from n(3,4,5) have "x (pos b') = 3" "y (pos b') = 0.027" "vel b' = \<lparr>x = 0, y = 1.8\<rparr>"
    by (simp_all add: planet_def)
  with n(1,2) have exact: "\<exists>next b'. integrate (newSimulation [planet]) 0.015 = Some next \<and>
      bodies next = [b'] \<and> x (pos b') = 3 \<and> y (pos b') = 0.027 \<and> vel b' = \<lparr>x = 0, y = 1.8\<rparr>"
    by blast
  from d have deriv: "getDerivatives (newSimulation [planet]) [3, 0, 0, 1.8] = Some [0, 1.8, 0, 0]"
    by (simp add: numeral_2_eq_2 numeral_3_eq_3)
  have v0: "is_double (Fin 0)" by simp
  have v1: "is_double (rnd 1.8)" unfolding rnd_18 is_double.simps rnd_vy by (rule refl)
  have q: "fdiv (rnd 0.015) (Fin 6) = Fin (5764607523034235 / 2 ^ 61)"
    unfolding rnd_0015 fdiv_6 rnd_h by (rule refl)
  from inst have "\<forall>m d h px py vx vy.
            is_double vx \<and> is_double vy \<and> fdiv (Fin d) (Fin 6) = Fin h \<longrightarrow>
            advance_d [m] (Fin d) [px, py, vx, vy] ! 2 = vx \<and>
            advance_d [m] (Fin d) [px, py, vx, vy] ! 3 = vy"
    by (simp add: numeral_2_eq_2 numeral_3_eq_3)
  then have "advance_d [Fin 1] (Fin (1080863910568919 / 2 ^ 56))
               [Fin 3, Fin 0, Fin 0, rnd 1.8] ! 2 = Fin 0 \<and>
             advance_d [Fin 1] (Fin (1080863910568919 / 2 ^ 56))
               [Fin 3, Fin 0, Fin 0, rnd 1.8] ! 3 = rnd 1.8"
    using v0 v1 q [unfolded rnd_0015] by blast
  then have unchanged: "advance_d [Fin 1] (rnd 0.015) [Fin 3, Fin 0, Fin 0, rnd 1.8] ! 2 = Fin 0 \<and>
             advance_d [Fin 1] (rnd 0.015) [Fin 3, Fin 0, Fin 0, rnd 1.8] ! 3 = rnd 1.8"
    unfolding rnd_0015 .
  from h deriv exact v0 v1 q unchanged show ?thesis by blast
qed

text \<open>
  In double arithmetic the rounded combination need not be \<open>pos + dt \<cdot> v\<close>: for the
  planet of the solar scenario, at \<open>(3, 0)\<close> with velocity \<open>(0, 1.8)\<close>, and the step
  size \<open>0.015\<close>, line 215 gives the \<open>y\<close> coordinate \<open>0.027000000000000003\<close>, and
  \<open>0 + 0.015 \<cdot> 1.8\<close> is \<open>0.027\<close>, one unit in the last place below.
\<close>

theorem single_body_rounding_counterexample:
  "advance_d [Fin 1] (rnd 0.015) [Fin 3, Fin 0, Fin 0, rnd 1.8] ! 1 = Fin (3891110078048109 / 2 ^ 57) \<and>
   fadd (Fin 0) (fmul (rnd 0.015) (rnd 1.8)) = Fin (7782220156096217 / 2 ^ 58) \<and>
   advance_d [Fin 1] (rnd 0.015) [Fin 3, Fin 0, Fin 0, rnd 1.8] ! 1 \<noteq>
     fadd (Fin 0) (fmul (rnd 0.015) (rnd 1.8))"
proof -
  have a: "advance_d [Fin 1] (rnd 0.015) [Fin 3, Fin 0, Fin 0, rnd 1.8] ! 1 =
           Fin (3891110078048109 / 2 ^ 57)"
    by (rule planet_advance_y)
  have b: "fadd (Fin 0) (fmul (rnd 0.015) (rnd 1.8)) = Fin (7782220156096217 / 2 ^ 58)"
    unfolding rnd_0015 rnd_18 by (rule planet_line_y)
  have "(3891110078048109 / 2 ^ 57 :: real) \<noteq> 7782220156096217 / 2 ^ 58" by simp
  then show ?thesis unfolding a b by simp
qed

section \<open>Two bodies at one position, in double arithmetic\<close>




end
